theory Spec2Isabelle
  imports Main "HOL-Library.Char_ord" "HOL-Library.List_Lexorder" "HOL-Library.Sublist"
begin

section \<open>JavaScript strings\<close>

text \<open>
  Strings are lists of characters. What Unicode fixes is a parameter of the model: the set
  of white space characters that \<open>String.prototype.trim\<close> strips (white space and
  line terminators), and the case mapping of \<open>String.prototype.toLowerCase\<close>.
\<close>

record unicode =
  isWhiteSpace :: "char \<Rightarrow> bool"
  lowerCase :: "string \<Rightarrow> string"

text \<open>\<open>s.trim()\<close>: the white space at both ends is removed.\<close>

definition trim :: "unicode \<Rightarrow> string \<Rightarrow> string" where
  "trim u s = rev (dropWhile (isWhiteSpace u) (rev (dropWhile (isWhiteSpace u) s)))"

text \<open>\<open>s.toLowerCase()\<close>: the empty string has no character to map.\<close>

definition toLowerCase :: "unicode \<Rightarrow> string \<Rightarrow> string" where
  "toLowerCase u s = (if s = [] then [] else lowerCase u s)"

text \<open>
  A regular expression with the flag \<open>i\<close> compares an ASCII letter of its pattern
  with a character of the input in either case of that letter, and with no other character.
\<close>

definition asciiLower :: "char \<Rightarrow> char" where
  "asciiLower c =
     (case map_of (zip ''ABCDEFGHIJKLMNOPQRSTUVWXYZ'' ''abcdefghijklmnopqrstuvwxyz'') c of
        None \<Rightarrow> c
      | Some l \<Rightarrow> l)"

definition asciiLowerCase :: "string \<Rightarrow> string" where
  "asciiLowerCase s = map asciiLower s"

text \<open>
  The instance used in the concrete examples below. It agrees with Unicode on strings of
  ASCII characters: the white space is the six ASCII characters, the case mapping that of
  the letters \<open>A\<close> to \<open>Z\<close>.
\<close>

definition asciiOnly :: unicode where
  "asciiOnly =
     \<lparr>isWhiteSpace = (\<lambda>c. c \<in> set [CHR '' '', CHR 0x09, CHR 0x0A, CHR 0x0B, CHR 0x0C, CHR 0x0D]),
      lowerCase = asciiLowerCase\<rparr>"

text \<open>\<open>s.includes(q)\<close>: \<open>q\<close> occurs in \<open>s\<close> as a contiguous substring.\<close>

fun str_includes :: "string \<Rightarrow> string \<Rightarrow> bool" where
  "str_includes [] q = (q = [])"
| "str_includes (c # cs) q = (prefix q (c # cs) \<or> str_includes cs q)"

text \<open>Truthiness of a possibly absent string: present and not empty.\<close>

fun truthy :: "string option \<Rightarrow> bool" where
  "truthy None = False"
| "truthy (Some s) = (s \<noteq> [])"

section \<open>Dates\<close>

text \<open>
  \<open>Date.parse\<close> is a parameter of the model: it maps a string to the milliseconds
  since the epoch, or to \<open>None\<close> where JavaScript yields \<open>NaN\<close>.
  \<open>new Date(s).getTime()\<close> is the same function of the string \<open>s\<close>.
\<close>

type_synonym date_parse = "string \<Rightarrow> int option"

definition isValidDate :: "date_parse \<Rightarrow> string \<Rightarrow> bool" where
  "isValidDate dp dateString \<longleftrightarrow> dp dateString \<noteq> None"

text \<open>
  The parser used in the concrete examples below. It agrees with ECMAScript on the
  date-only ISO form \<open>YYYY-MM-DD\<close> (midnight UTC) and on the empty string;
  every other string is unparseable for it.
\<close>

definition digitVal :: "char \<Rightarrow> int option" where
  "digitVal c = map_of (zip ''0123456789'' [0, 1, 2, 3, 4, 5, 6, 7, 8, 9]) c"

definition daysFromCivil :: "int \<Rightarrow> int \<Rightarrow> int \<Rightarrow> int" where
  "daysFromCivil y m d =
     (let y' = (if m \<le> 2 then y - 1 else y);
          mp = (m + 9) mod 12
      in 365 * y' + y' div 4 - y' div 100 + y' div 400 + (153 * mp + 2) div 5 + d - 1 - 719468)"

definition daysInMonth :: "int \<Rightarrow> int \<Rightarrow> int" where
  "daysInMonth y m =
     (if m = 2 then (if y mod 4 = 0 \<and> (y mod 100 \<noteq> 0 \<or> y mod 400 = 0) then 29 else 28)
      else if m = 4 \<or> m = 6 \<or> m = 9 \<or> m = 11 then 30 else 31)"

definition isoDateParse :: date_parse where
  "isoDateParse s =
     (case s of
        [y1, y2, y3, y4, s1, m1, m2, s2, d1, d2] \<Rightarrow>
          (case (digitVal y1, digitVal y2, digitVal y3, digitVal y4,
                 digitVal m1, digitVal m2, digitVal d1, digitVal d2) of
             (Some a, Some b, Some c, Some e, Some f, Some g, Some h, Some i) \<Rightarrow>
               (let y = 1000 * a + 100 * b + 10 * c + e; m = 10 * f + g; d = 10 * h + i
                in if s1 = CHR ''-'' \<and> s2 = CHR ''-'' \<and> 1 \<le> m \<and> m \<le> 12
                      \<and> 1 \<le> d \<and> d \<le> daysInMonth y m
                   then Some (daysFromCivil y m d * 86400000) else None)
           | _ \<Rightarrow> None)
      | _ \<Rightarrow> None)"

section \<open>Article service\<close>

subsection \<open>Data\<close>

text \<open>
  An article is a JSON object; every field may be absent (\<open>None\<close>). The author
  is a string or an object with an optional \<open>name\<close>.
\<close>

datatype author_field = AuthorString string | AuthorObject "string option"

record article =
  slug :: "string option"
  title :: "string option"
  publicationDate :: "string option"
  lead :: "string option"
  author :: "author_field option"
  link :: "string option"

text \<open>
  The module state: \<open>magazineArticles\<close> and the \<open>articlesBySlug\<close> map,
  keyed by the value of \<open>article.slug\<close>.
\<close>

record index =
  magazineArticles :: "article list"
  articlesBySlug :: "string option \<rightharpoonup> article"

definition DEFAULT_LIMIT :: int where
  "DEFAULT_LIMIT = 10"

definition MAX_LIMIT :: int where
  "MAX_LIMIT = 100"

subsection \<open>Validation and derived fields\<close>

text \<open>The limit is \<open>None\<close> for \<open>undefined\<close>; numbers are integers.\<close>

definition clampLimit :: "int option \<Rightarrow> int" where
  "clampLimit limit =
     (case limit of
        None \<Rightarrow> DEFAULT_LIMIT
      | Some l \<Rightarrow> min (max 1 l) MAX_LIMIT)"

text \<open>A parameter \<open>limit = CONFIG.DEFAULT_LIMIT\<close>: the default replaces \<open>undefined\<close>.\<close>

definition defaultLimit :: "int option \<Rightarrow> int option" where
  "defaultLimit limit = (case limit of None \<Rightarrow> Some DEFAULT_LIMIT | Some l \<Rightarrow> Some l)"

text \<open>\<open>xs.slice(0, n)\<close>; a negative \<open>n\<close> counts from the end.\<close>

definition slice0 :: "'a list \<Rightarrow> int \<Rightarrow> 'a list" where
  "slice0 xs n = (if n < 0 then take (length xs - nat (- n)) xs else take (nat n) xs)"

definition isLoadedArticle :: "unicode \<Rightarrow> date_parse \<Rightarrow> article \<Rightarrow> bool" where
  "isLoadedArticle u dp article =
     (let slug' = map_option (trim u) (slug article);
          title' = map_option (trim u) (title article);
          publicationDate' = map_option (trim u) (publicationDate article)
      in truthy slug' \<and> truthy title' \<and> truthy publicationDate'
         \<and> (case publicationDate' of None \<Rightarrow> False | Some d \<Rightarrow> dp d \<noteq> None))"

definition getAuthorRaw :: "unicode \<Rightarrow> article \<Rightarrow> string option" where
  "getAuthorRaw u article =
     (case author article of
        None \<Rightarrow> None
      | Some (AuthorString s) \<Rightarrow>
          (if s = [] then None
           else let trimmed = trim u s in if length trimmed > 0 then Some trimmed else None)
      | Some (AuthorObject n) \<Rightarrow>
          (case map_option (trim u) n of
             None \<Rightarrow> None
           | Some name \<Rightarrow> if name \<noteq> [] \<and> length name > 0 then Some name else None))"

definition getAuthorName :: "unicode \<Rightarrow> article \<Rightarrow> string" where
  "getAuthorName u article =
     (case getAuthorRaw u article of None \<Rightarrow> ''Editorial team'' | Some name \<Rightarrow> name)"

definition authorMatches :: "unicode \<Rightarrow> article \<Rightarrow> string \<Rightarrow> bool" where
  "authorMatches u article lowerQuery =
     (case getAuthorRaw u article of
        None \<Rightarrow> False
      | Some name \<Rightarrow> if name \<noteq> [] then str_includes (toLowerCase u name) lowerQuery else False)"

subsection \<open>Loading\<close>

text \<open>
  The file system and \<open>JSON.parse\<close> are parameters. \<open>readFileSync\<close> and
  \<open>readdirSync\<close> yield \<open>None\<close> where Node raises; \<open>pathJoin\<close> is
  \<open>path.join\<close> and \<open>distDir\<close> the resolved \<open>ui-sdk/dist\<close> directory.
\<close>

record node_fs =
  existsSync :: "string \<Rightarrow> bool"
  readFileSync :: "string \<Rightarrow> string option"
  readdirSync :: "string \<Rightarrow> string list option"
  pathJoin :: "string \<Rightarrow> string \<Rightarrow> string"
  distDir :: string

text \<open>
  \<open>jsonParse\<close> yields \<open>None\<close> where \<open>JSON.parse\<close> raises or the parsed
  value is not an array of article objects (then the filter or the map raises).
\<close>

type_synonym json_parse = "string \<Rightarrow> article list option"

datatype load_error = BlogDataNotFound string | BlogDataUnreadable | BlogDataMalformed

definition normalizeLoaded :: "unicode \<Rightarrow> article \<Rightarrow> article" where
  "normalizeLoaded u article =
     article\<lparr>slug := map_option (trim u) (slug article),
             title := map_option (trim u) (title article),
             publicationDate := map_option (trim u) (publicationDate article)\<rparr>"

definition buildSlugIndex :: "article list \<Rightarrow> (string option \<rightharpoonup> article)" where
  "buildSlugIndex articles = fold (\<lambda>article m. m(slug article \<mapsto> article)) articles Map.empty"

definition emptyIndex :: index where
  "emptyIndex = \<lparr>magazineArticles = [], articlesBySlug = Map.empty\<rparr>"

text \<open>
  The result pairs the outcome (\<open>Inl\<close> the error that is re-thrown) with the module
  state the call leaves behind; the state before the call is overwritten on every path.
\<close>

definition loadMagazineArticles ::
  "unicode \<Rightarrow> node_fs \<Rightarrow> json_parse \<Rightarrow> date_parse \<Rightarrow> string
     \<Rightarrow> (load_error + unit) \<times> index" where
  "loadMagazineArticles u fs jsonParse dp blogDataPath =
     (if \<not> existsSync fs blogDataPath then (Inl (BlogDataNotFound blogDataPath), emptyIndex)
      else case readFileSync fs blogDataPath of
        None \<Rightarrow> (Inl BlogDataUnreadable, emptyIndex)
      | Some data \<Rightarrow>
          (case jsonParse data of
             None \<Rightarrow> (Inl BlogDataMalformed, emptyIndex)
           | Some articles \<Rightarrow>
               (let loaded = map (normalizeLoaded u) (filter (isLoadedArticle u dp) articles)
                in (Inr (), \<lparr>magazineArticles = loaded, articlesBySlug = buildSlugIndex loaded\<rparr>))))"

subsection \<open>Queries\<close>

definition fieldIncludes :: "unicode \<Rightarrow> string option \<Rightarrow> string \<Rightarrow> bool" where
  "fieldIncludes u field lowerQuery =
     (case field of None \<Rightarrow> False | Some s \<Rightarrow> str_includes (toLowerCase u s) lowerQuery)"

definition searchArticles :: "unicode \<Rightarrow> index \<Rightarrow> string \<Rightarrow> int option \<Rightarrow> article list" where
  "searchArticles u st query limit =
     (let clampedLimit = clampLimit (defaultLimit limit);
          lowerQuery = toLowerCase u query
      in slice0
           (filter (\<lambda>article.
              let titleMatch = fieldIncludes u (title article) lowerQuery;
                  leadMatch = fieldIncludes u (lead article) lowerQuery;
                  authorMatch = authorMatches u article lowerQuery
              in titleMatch \<or> leadMatch \<or> authorMatch) (magazineArticles st))
           clampedLimit)"

definition searchArticlesByTitle :: "unicode \<Rightarrow> index \<Rightarrow> string \<Rightarrow> int option \<Rightarrow> article list" where
  "searchArticlesByTitle u st query limit =
     (let clampedLimit = clampLimit (defaultLimit limit);
          lowerQuery = toLowerCase u query
      in slice0
           (filter (\<lambda>article. fieldIncludes u (title article) lowerQuery) (magazineArticles st))
           clampedLimit)"

text \<open>\<open>new Date(article.publicationDate).getTime()\<close>; \<open>None\<close> is \<open>NaN\<close>.\<close>

definition pubTime :: "date_parse \<Rightarrow> article \<Rightarrow> int option" where
  "pubTime dp article = (case publicationDate article of None \<Rightarrow> None | Some d \<Rightarrow> dp d)"

text \<open>Comparisons and subtraction of numbers; anything with \<open>NaN\<close> is false or \<open>NaN\<close>.\<close>

fun numGe :: "int option \<Rightarrow> int option \<Rightarrow> bool" where
  "numGe (Some a) (Some b) = (a \<ge> b)"
| "numGe _ _ = False"

fun numLe :: "int option \<Rightarrow> int option \<Rightarrow> bool" where
  "numLe (Some a) (Some b) = (a \<le> b)"
| "numLe _ _ = False"

fun numSub :: "int option \<Rightarrow> int option \<Rightarrow> int option" where
  "numSub (Some a) (Some b) = Some (a - b)"
| "numSub _ _ = None"

text \<open>
  \<open>Array.prototype.sort\<close> with a comparator is stable: an element moves behind another
  only where the comparator is positive. With a consistent comparator every stable sort
  yields the list computed here by insertion; a \<open>NaN\<close> from the comparator counts
  as not positive.
\<close>

fun insertSorted :: "('a \<Rightarrow> 'a \<Rightarrow> int option) \<Rightarrow> 'a \<Rightarrow> 'a list \<Rightarrow> 'a list" where
  "insertSorted cmp x [] = [x]"
| "insertSorted cmp x (y # ys) =
     (if (case cmp x y of None \<Rightarrow> False | Some v \<Rightarrow> v > 0)
      then y # insertSorted cmp x ys else x # y # ys)"

definition arraySort :: "('a \<Rightarrow> 'a \<Rightarrow> int option) \<Rightarrow> 'a list \<Rightarrow> 'a list" where
  "arraySort cmp xs = foldr (insertSorted cmp) xs []"

definition newestFirst :: "date_parse \<Rightarrow> article \<Rightarrow> article \<Rightarrow> int option" where
  "newestFirst dp a b = numSub (pubTime dp b) (pubTime dp a)"

datatype query_error = InvalidStartDate string | InvalidEndDate string

definition filterArticlesByDateRange ::
  "date_parse \<Rightarrow> index \<Rightarrow> string option \<Rightarrow> string option \<Rightarrow> int option
     \<Rightarrow> query_error + article list" where
  "filterArticlesByDateRange dp st startDate endDate limit =
     (let clampedLimit = clampLimit (defaultLimit limit);
          filtered = magazineArticles st
      in case (case startDate of
                 None \<Rightarrow> Inr filtered
               | Some s \<Rightarrow>
                   if s = [] then Inr filtered
                   else if \<not> isValidDate dp s then Inl (InvalidStartDate s)
                   else Inr (filter (\<lambda>article. numGe (pubTime dp article) (dp s)) filtered)) of
           Inl e \<Rightarrow> Inl e
         | Inr filtered \<Rightarrow>
             (case (case endDate of
                      None \<Rightarrow> Inr filtered
                    | Some e \<Rightarrow>
                        if e = [] then Inr filtered
                        else if \<not> isValidDate dp e then Inl (InvalidEndDate e)
                        else Inr (filter (\<lambda>article. numLe (pubTime dp article) (dp e)) filtered)) of
                Inl e \<Rightarrow> Inl e
              | Inr filtered \<Rightarrow> Inr (slice0 (arraySort (newestFirst dp) filtered) clampedLimit)))"

definition filterArticlesByAuthor ::
  "unicode \<Rightarrow> date_parse \<Rightarrow> index \<Rightarrow> string \<Rightarrow> int option \<Rightarrow> article list" where
  "filterArticlesByAuthor u dp st authorName limit =
     (let clampedLimit = clampLimit (defaultLimit limit);
          lowerAuthor = toLowerCase u authorName
      in slice0
           (arraySort (newestFirst dp)
              (filter (\<lambda>article. authorMatches u article lowerAuthor) (magazineArticles st)))
           clampedLimit)"

section \<open>Widgets\<close>

subsection \<open>Asset resolution\<close>

datatype widget_error =
    AssetsDirMissing string
  | AssetMissing string string
  | JsAssetNotFound string
  | CssAssetNotFound string
  | FsFailure string

text \<open>
  \<open>files.filter(...).sort()\<close> orders the names as strings, code unit by code unit;
  \<open>at(-1)\<close> is the last one, \<open>undefined\<close> on an empty array.
\<close>

definition resolveWidgetAsset :: "node_fs \<Rightarrow> string \<Rightarrow> string \<Rightarrow> string \<Rightarrow> widget_error + string" where
  "resolveWidgetAsset fs entryName extension uiAssetsDir =
     (case readdirSync fs uiAssetsDir of
        None \<Rightarrow> Inl (FsFailure uiAssetsDir)
      | Some files \<Rightarrow>
          (let hashedCandidates =
                 sort (filter (\<lambda>file. prefix (entryName @ ''-'') file \<and> suffix extension file) files);
               hashed = (if hashedCandidates = [] then None else Some (last hashedCandidates))
           in if truthy hashed then Inr (last hashedCandidates)
              else let fallback = entryName @ extension
                   in if fallback \<in> set files then Inr fallback
                      else Inl (AssetMissing extension entryName)))"

subsection \<open>Escaping\<close>

text \<open>
  \<open>source.replace(/pat/gi, rep)\<close> for a literal pattern \<open>pat\<close> (given in lower
  case) and a replacement without \<open>$\<close>: the matches are found from left to right,
  ignoring ASCII case, and the search resumes behind each match.
\<close>

fun replaceAllIgnoreCase :: "string \<Rightarrow> string \<Rightarrow> string \<Rightarrow> string" where
  "replaceAllIgnoreCase pat rep [] = (if pat = [] then rep else [])"
| "replaceAllIgnoreCase pat rep (c # cs) =
     (if pat = [] then rep @ c # replaceAllIgnoreCase pat rep cs
      else if prefix pat (asciiLowerCase (c # cs))
      then rep @ replaceAllIgnoreCase pat rep (drop (length pat - 1) cs)
      else c # replaceAllIgnoreCase pat rep cs)"

definition escapeForInlineScript :: "string \<Rightarrow> string" where
  "escapeForInlineScript source =
     replaceAllIgnoreCase ''</script'' (CHR ''<'' # CHR 0x5C # ''/script'') source"

definition escapeForInlineStyle :: "string \<Rightarrow> string" where
  "escapeForInlineStyle source =
     replaceAllIgnoreCase ''</style'' (CHR ''<'' # CHR 0x5C # ''/style'') source"

text \<open>
  An output is an escaping of a source: it is the source, character by character, except
  that some occurrences of the pattern (in any case of its letters) are replaced by the
  replacement.
\<close>

inductive escapedFrom :: "string \<Rightarrow> string \<Rightarrow> string \<Rightarrow> string \<Rightarrow> bool"
  for pat :: string and rep :: string where
  escaped_end: "escapedFrom pat rep [] []"
| escaped_keep: "escapedFrom pat rep s out \<Longrightarrow> escapedFrom pat rep (c # s) (c # out)"
| escaped_match:
    "asciiLowerCase m = pat \<Longrightarrow> escapedFrom pat rep s out
       \<Longrightarrow> escapedFrom pat rep (m @ s) (rep @ out)"

subsection \<open>The document\<close>

definition nl :: string where
  "nl = [CHR 0x0A]"

definition tabs :: "nat \<Rightarrow> string" where
  "tabs n = replicate n (CHR 0x09)"

definition inlineDocument :: "string \<Rightarrow> string \<Rightarrow> string \<Rightarrow> string" where
  \<open>inlineDocument rootId safeCss safeJs =
     ''<!doctype html>'' @ nl @
     tabs 3 @ ''<html>'' @ nl @
     tabs 3 @ ''<head>'' @ nl @
     tabs 4 @ ''<style>'' @ safeCss @ ''</style>'' @ nl @
     tabs 3 @ ''</head>'' @ nl @
     tabs 3 @ ''<body>'' @ nl @
     tabs 4 @ ''<div id="'' @ rootId @ ''"></div>'' @ nl @
     tabs 4 @ ''<script type="module">'' @ safeJs @ ''</script>'' @ nl @
     tabs 3 @ ''</body>'' @ nl @
     tabs 3 @ ''</html>''\<close>

text \<open>The body of the \<open>try\<close> block of \<open>buildWidgetHtml\<close>: \<open>Inl\<close> is what it throws.\<close>

definition buildWidgetHtmlTry :: "node_fs \<Rightarrow> string \<Rightarrow> string \<Rightarrow> string \<Rightarrow> widget_error + string" where
  "buildWidgetHtmlTry fs entryName rootId uiAssetsDir =
     (let htmlPath = pathJoin fs (distDir fs) (entryName @ ''.html'')
      in if existsSync fs htmlPath
         then (case readFileSync fs htmlPath of
                 None \<Rightarrow> Inl (FsFailure htmlPath)
               | Some html \<Rightarrow> Inr html)
         else if \<not> existsSync fs uiAssetsDir then Inl (AssetsDirMissing uiAssetsDir)
         else case resolveWidgetAsset fs entryName ''.js'' uiAssetsDir of
           Inl e \<Rightarrow> Inl e
         | Inr jsAsset \<Rightarrow>
             (case resolveWidgetAsset fs entryName ''.css'' uiAssetsDir of
                Inl e \<Rightarrow> Inl e
              | Inr cssAsset \<Rightarrow>
                  (let jsPath = pathJoin fs uiAssetsDir jsAsset;
                       cssPath = pathJoin fs uiAssetsDir cssAsset
                   in if \<not> existsSync fs jsPath then Inl (JsAssetNotFound jsPath)
                      else if \<not> existsSync fs cssPath then Inl (CssAssetNotFound cssPath)
                      else case readFileSync fs jsPath of
                        None \<Rightarrow> Inl (FsFailure jsPath)
                      | Some jsContents \<Rightarrow>
                          (case readFileSync fs cssPath of
                             None \<Rightarrow> Inl (FsFailure cssPath)
                           | Some cssContents \<Rightarrow>
                               (let safeJs = escapeForInlineScript jsContents;
                                    safeCss = escapeForInlineStyle cssContents
                                in Inr (inlineDocument rootId safeCss safeJs))))))"

text \<open>
  \<open>buildWidgetHtml\<close>: the \<open>catch\<close> block logs the cause and looks for the fallback
  document; what it throws itself leaves the function.
\<close>

definition buildWidgetHtml :: "node_fs \<Rightarrow> string \<Rightarrow> string \<Rightarrow> string \<Rightarrow> widget_error + string" where
  "buildWidgetHtml fs entryName rootId uiAssetsDir =
     (case buildWidgetHtmlTry fs entryName rootId uiAssetsDir of
        Inr html \<Rightarrow> Inr html
      | Inl err \<Rightarrow>
          (let fallbackPath = pathJoin fs uiAssetsDir ''fallback-widget.html''
           in if existsSync fs fallbackPath
              then (case readFileSync fs fallbackPath of
                      None \<Rightarrow> Inl (FsFailure fallbackPath)
                    | Some html \<Rightarrow> Inr html)
              else Inr ''<div>Widget unavailable</div>''))"

subsection \<open>Descriptors\<close>

record widget_descriptor =
  id_w :: string
  title_w :: string
  templateUri :: string
  invoking :: string
  invoked :: string
  html :: string

text \<open>The result is \<open>Inr None\<close> for \<open>null\<close>; \<open>Inl\<close> would be an error leaving the call.\<close>

definition initializeArticleListWidget :: "node_fs \<Rightarrow> string \<Rightarrow> widget_error + widget_descriptor option" where
  "initializeArticleListWidget fs uiAssetsDir =
     (let entryName = ''article-list'';
          templateUri' = ''ui://widget/'' @ entryName @ ''.html''
      in case buildWidgetHtml fs entryName (entryName @ ''-root'') uiAssetsDir of
           Inl error \<Rightarrow> Inr None
         | Inr html' \<Rightarrow>
             Inr (Some \<lparr>id_w = ''unic-article-list'',
                        title_w = ''Unic magazine article list'',
                        templateUri = templateUri',
                        invoking = ''Curating magazine stories'',
                        invoked = ''Article list ready'',
                        html = html'\<rparr>))"

definition initializeArticlePreviewWidget :: "node_fs \<Rightarrow> string \<Rightarrow> widget_error + widget_descriptor option" where
  "initializeArticlePreviewWidget fs uiAssetsDir =
     (let entryName = ''article-preview'';
          templateUri' = ''ui://widget/'' @ entryName @ ''.html''
      in case buildWidgetHtml fs entryName (entryName @ ''-root'') uiAssetsDir of
           Inl error \<Rightarrow> Inr None
         | Inr html' \<Rightarrow>
             Inr (Some \<lparr>id_w = ''unic-article-preview'',
                        title_w = ''Unic magazine article preview'',
                        templateUri = templateUri',
                        invoking = ''Loading article preview'',
                        invoked = ''Article preview ready'',
                        html = html'\<rparr>))"

definition widgetInvocationMeta :: "widget_descriptor \<Rightarrow> (string \<times> string) list" where
  "widgetInvocationMeta widget =
     [(''openai/toolInvocation/invoking'', invoking widget),
      (''openai/toolInvocation/invoked'', invoked widget)]"

subsection \<open>Tool calls\<close>

text \<open>
  A tool response: the text items of \<open>content\<close>, and \<open>structuredContent\<close> and
  \<open>_meta\<close> where the handler sets them. The text formatters of the article service,
  the widget payloads (they read the clock) and the printing of a number are parameters.
\<close>

record 'p tool_response =
  content :: "string list"
  structuredContent :: "'p option"
  meta :: "(string \<times> string) list option"

record 'p formatters =
  formatArticleList :: "article list \<Rightarrow> string"
  formatArticlePreview :: "article \<Rightarrow> string"
  createSearchWidgetPayload :: "string \<Rightarrow> int \<Rightarrow> article list \<Rightarrow> 'p"
  createArticlePreviewWidgetPayload :: "article \<Rightarrow> 'p"
  numberToString :: "int \<Rightarrow> string"

definition bulb :: string where
  "bulb = [CHR 0xF0, CHR 0x9F, CHR 0x92, CHR 0xA1]"

definition searchArticlesTool ::
  "unicode \<Rightarrow> 'p formatters \<Rightarrow> widget_descriptor option \<Rightarrow> index \<Rightarrow> string \<Rightarrow> int option \<Rightarrow> 'p tool_response" where
  \<open>searchArticlesTool u fmt articleListWidget st query limitArg =
     (let limit = (case limitArg of None \<Rightarrow> DEFAULT_LIMIT | Some l \<Rightarrow> l);
          results = searchArticles u st query (Some limit)
      in case articleListWidget of
           Some widget \<Rightarrow>
             (let widgetPayload = createSearchWidgetPayload fmt query limit results;
                  textOutput =
                    ''Found '' @ numberToString fmt (int (length results))
                    @ '' article(s) matching "'' @ query @ ''"''
                    @ (if limit < MAX_LIMIT
                       then '' (showing up to '' @ numberToString fmt limit @ '')'' else [])
                    @ ''.'' @ nl
                    @ tabs 5 @ ''[DO NOT show published date and author name.]'' @ nl
                    @ tabs 5 @ ''**Quick Reference:** display summary of search results as a whole.'' @ nl
                    @ tabs 4 @ bulb @ '' **Try:** display summary of an article.''
              in \<lparr>content = [textOutput],
                  structuredContent = Some widgetPayload,
                  meta = Some (widgetInvocationMeta widget)\<rparr>)
         | None \<Rightarrow>
             (let formattedResults = formatArticleList fmt results
              in \<lparr>content =
                    [''Found '' @ numberToString fmt (int (length results))
                     @ '' article(s) matching "'' @ query @ ''":'' @ nl @ nl @ formattedResults],
                  structuredContent = None,
                  meta = None\<rparr>))\<close>

definition getArticlePreviewTool ::
  "unicode \<Rightarrow> 'p formatters \<Rightarrow> widget_descriptor option \<Rightarrow> index \<Rightarrow> string \<Rightarrow> 'p tool_response" where
  \<open>getArticlePreviewTool u fmt articlePreviewWidget st title' =
     (let results = searchArticlesByTitle u st title' (Some 1)
      in case results of
           [] \<Rightarrow>
             \<lparr>content =
                [''Article with title "'' @ title'
                 @ ''" not found. Try using the search_articles tool first to find the correct article.''],
              structuredContent = None,
              meta = None\<rparr>
         | article # _ \<Rightarrow>
             (case articlePreviewWidget of
                Some widget \<Rightarrow>
                  (let widgetPayload = createArticlePreviewWidgetPayload fmt article;
                       textOutput =
                         ''[Widget displayed above contains complete article preview - DO NOT generate additional summary or repeat any article content below]''
                         @ nl @ tabs 4
                   in \<lparr>content = [textOutput],
                       structuredContent = Some widgetPayload,
                       meta = Some (widgetInvocationMeta widget)\<rparr>)
              | None \<Rightarrow>
                  (let preview = formatArticlePreview fmt article
                   in \<lparr>content = [preview], structuredContent = None, meta = None\<rparr>)))\<close>

section \<open>Cross-origin headers\<close>

text \<open>
  The process environment: \<open>isDevelopment\<close> is \<open>NODE_ENV !== 'production'\<close>,
  \<open>ALLOWED_ORIGIN\<close> the variable of that name when it is set.
\<close>

record cors_env =
  isDevelopment :: bool
  ALLOWED_ORIGIN :: "string option"

definition DEFAULT_ALLOWED_ORIGINS :: "string list" where
  "DEFAULT_ALLOWED_ORIGINS = [''https://chatgpt.com'', ''https://chat.openai.com'']"

text \<open>\<open>s.split(',')\<close>: the pieces between the commas, at least one.\<close>

fun splitComma :: "string \<Rightarrow> string list" where
  "splitComma [] = [[]]"
| "splitComma (c # cs) =
     (if c = CHR '','' then [] # splitComma cs
      else case splitComma cs of
             [] \<Rightarrow> [[c]]
           | piece # pieces \<Rightarrow> (c # piece) # pieces)"

text \<open>\<open>a || b\<close> on strings: the first when it is truthy.\<close>

definition orElse :: "string option \<Rightarrow> string \<Rightarrow> string" where
  "orElse a b = (case a of None \<Rightarrow> b | Some s \<Rightarrow> if s = [] then b else s)"

text \<open>\<open>requestOrigin && allowed.includes(requestOrigin)\<close>\<close>

definition isAllowed :: "string option \<Rightarrow> string list \<Rightarrow> bool" where
  "isAllowed requestOrigin allowed =
     (case requestOrigin of None \<Rightarrow> False | Some origin \<Rightarrow> origin \<noteq> [] \<and> origin \<in> set allowed)"

definition resolveAllowedOrigin :: "unicode \<Rightarrow> cors_env \<Rightarrow> string option \<Rightarrow> string" where
  "resolveAllowedOrigin u env requestOrigin =
     (if isDevelopment env then orElse requestOrigin ''*''
      else let allowedOriginEnv = map_option (trim u) (ALLOWED_ORIGIN env)
           in if truthy allowedOriginEnv
              then (let allowedOrigins =
                          filter (\<lambda>origin. length origin > 0)
                            (map (trim u) (splitComma (orElse allowedOriginEnv [])))
                    in if isAllowed requestOrigin allowedOrigins then orElse requestOrigin []
                       else orElse (case allowedOrigins of [] \<Rightarrow> None | origin # _ \<Rightarrow> Some origin)
                              (hd DEFAULT_ALLOWED_ORIGINS))
              else if isAllowed requestOrigin DEFAULT_ALLOWED_ORIGINS then orElse requestOrigin []
              else hd DEFAULT_ALLOWED_ORIGINS)"

text \<open>The headers object as a map from header name to value; a later entry overrides.\<close>

definition getCorsHeaders :: "unicode \<Rightarrow> cors_env \<Rightarrow> string option \<Rightarrow> (string \<rightharpoonup> string) \<Rightarrow> (string \<rightharpoonup> string)" where
  "getCorsHeaders u env requestOrigin additionalHeaders =
     (let allowedOrigin = resolveAllowedOrigin u env requestOrigin
      in [''Access-Control-Allow-Origin'' \<mapsto> allowedOrigin]
         ++ (if allowedOrigin = ''*'' then Map.empty
             else [''Access-Control-Allow-Credentials'' \<mapsto> ''true''])
         ++ [''Vary'' \<mapsto> ''Origin'']
         ++ additionalHeaders)"

section \<open>Specification vocabulary and examples\<close>

text \<open>
  A bound of a date range constrains an article when it is given and not the empty string;
  it is rejected when it is given, not empty and does not parse.
\<close>

definition withinBounds :: "date_parse \<Rightarrow> string option \<Rightarrow> string option \<Rightarrow> article \<Rightarrow> bool" where
  "withinBounds dp startDate endDate article \<longleftrightarrow>
     (case startDate of None \<Rightarrow> True | Some s \<Rightarrow> s = [] \<or> numGe (pubTime dp article) (dp s))
     \<and> (case endDate of None \<Rightarrow> True | Some e \<Rightarrow> e = [] \<or> numLe (pubTime dp article) (dp e))"

definition rejected :: "date_parse \<Rightarrow> string option \<Rightarrow> bool" where
  "rejected dp bound \<longleftrightarrow> (case bound of None \<Rightarrow> False | Some s \<Rightarrow> s \<noteq> [] \<and> dp s = None)"

text \<open>The two-article corpus of the specification's examples.\<close>

definition exampleArticleA :: article where
  "exampleArticleA =
     \<lparr>slug = Some ''a'', title = Some ''Intro to X'', publicationDate = Some ''2024-01-01'',
      lead = None, author = None, link = None\<rparr>"

definition exampleArticleB :: article where
  "exampleArticleB =
     \<lparr>slug = Some ''b'', title = Some ''X continued'', publicationDate = Some ''2024-02-01'',
      lead = None, author = None, link = None\<rparr>"

definition exampleIndex :: index where
  "exampleIndex =
     \<lparr>magazineArticles = [exampleArticleA, exampleArticleB],
      articlesBySlug = [Some ''a'' \<mapsto> exampleArticleA, Some ''b'' \<mapsto> exampleArticleB]\<rparr>"

text \<open>
  The invariant of the index: slug, title and publication date are present, not empty and
  already trimmed, and the publication date parses.
\<close>

definition trimmedNonEmpty :: "unicode \<Rightarrow> string option \<Rightarrow> bool" where
  "trimmedNonEmpty u field \<longleftrightarrow> (case field of None \<Rightarrow> False | Some s \<Rightarrow> s \<noteq> [] \<and> trim u s = s)"

definition wellFormed :: "unicode \<Rightarrow> date_parse \<Rightarrow> article \<Rightarrow> bool" where
  "wellFormed u dp article \<longleftrightarrow>
     trimmedNonEmpty u (slug article) \<and> trimmedNonEmpty u (title article)
     \<and> trimmedNonEmpty u (publicationDate article) \<and> pubTime dp article \<noteq> None"

text \<open>
  A data file with four records: the two example articles with blanks around their fields,
  a record whose title is blank and a record whose date does not parse.
\<close>

definition exampleRaw :: "article list" where
  "exampleRaw =
     [\<lparr>slug = Some '' a '', title = Some ''Intro to X '', publicationDate = Some '' 2024-01-01'',
       lead = None, author = None, link = None\<rparr>,
      \<lparr>slug = Some ''c'', title = Some ''  '', publicationDate = Some ''2024-03-01'',
       lead = None, author = None, link = None\<rparr>,
      \<lparr>slug = Some ''d'', title = Some ''Undated'', publicationDate = Some ''not-a-date'',
       lead = None, author = None, link = None\<rparr>,
      \<lparr>slug = Some ''b'', title = Some ''X continued'', publicationDate = Some ''2024-02-01'',
       lead = None, author = None, link = None\<rparr>]"

text \<open>
  An instance that counts the no-break space (character 160) as white space too, and a
  record whose title is a single no-break space.
\<close>

definition withNoBreakSpace :: unicode where
  "withNoBreakSpace =
     \<lparr>isWhiteSpace = (\<lambda>c. isWhiteSpace asciiOnly c \<or> c = CHR 0xA0), lowerCase = asciiLowerCase\<rparr>"

definition blankTitleRecord :: article where
  "blankTitleRecord =
     \<lparr>slug = Some ''n'', title = Some [CHR 0xA0], publicationDate = Some ''2024-04-01'',
      lead = None, author = None, link = None\<rparr>"

definition exampleFs :: node_fs where
  "exampleFs =
     \<lparr>existsSync = (\<lambda>p. p = ''blogposts.en.json''),
      readFileSync = (\<lambda>p. if p = ''blogposts.en.json'' then Some ''[four records]'' else None),
      readdirSync = (\<lambda>p. None),
      pathJoin = (\<lambda>d f. d @ ''/'' @ f),
      distDir = ''ui-sdk/dist''\<rparr>"

definition exampleJson :: json_parse where
  "exampleJson data = (if data = ''[four records]'' then Some exampleRaw else None)"

text \<open>An article without an author: its display name is the fallback literal.\<close>

definition anonymousArticle :: article where
  "anonymousArticle =
     \<lparr>slug = Some ''hello'', title = Some ''Hello'', publicationDate = Some ''2024-03-01'',
      lead = None, author = None, link = None\<rparr>"

definition anonymousIndex :: index where
  "anonymousIndex =
     \<lparr>magazineArticles = [anonymousArticle], articlesBySlug = [Some ''hello'' \<mapsto> anonymousArticle]\<rparr>"

text \<open>
  A field matches a term when the field is present and the lower-cased term is a substring
  of the lower-cased field.
\<close>

definition matchesTerm :: "unicode \<Rightarrow> string \<Rightarrow> string option \<Rightarrow> bool" where
  "matchesTerm u term field \<longleftrightarrow>
     (case field of None \<Rightarrow> False | Some s \<Rightarrow> sublist (toLowerCase u term) (toLowerCase u s))"

text \<open>The key by which the date filters order their result: newest first.\<close>

definition newestKey :: "date_parse \<Rightarrow> article \<Rightarrow> int" where
  "newestKey dp article = (case pubTime dp article of None \<Rightarrow> 0 | Some t \<Rightarrow> - t)"

text \<open>
  A list is the newest-first stable ordering of another: it is ordered by publication time,
  descending, and among the articles of any one publication time the order is unchanged.
\<close>

definition newestFirstStable :: "date_parse \<Rightarrow> article list \<Rightarrow> article list \<Rightarrow> bool" where
  "newestFirstStable dp sorted' matches \<longleftrightarrow>
     sorted_wrt (\<lambda>a b. numGe (pubTime dp a) (pubTime dp b)) sorted'
     \<and> length sorted' = length matches
     \<and> set sorted' = set matches
     \<and> (\<forall>a\<in>set matches.
           filter (\<lambda>b. pubTime dp b = pubTime dp a) sorted'
             = filter (\<lambda>b. pubTime dp b = pubTime dp a) matches)"

text \<open>Two articles of the same day around the example articles, one of them by an author.\<close>

definition exampleArticleC :: article where
  "exampleArticleC =
     \<lparr>slug = Some ''c'', title = Some ''Same day, first'', publicationDate = Some ''2024-02-01'',
      lead = None, author = Some (AuthorString ''Ada Lovelace''), link = None\<rparr>"

definition exampleArticleD :: article where
  "exampleArticleD =
     \<lparr>slug = Some ''d'', title = Some ''Later'', publicationDate = Some ''2024-05-01'',
      lead = None, author = Some (AuthorObject (Some '' Ada Lovelace '')), link = None\<rparr>"

definition datedIndex :: index where
  "datedIndex =
     \<lparr>magazineArticles = [exampleArticleA, exampleArticleC, exampleArticleB, exampleArticleD],
      articlesBySlug = Map.empty\<rparr>"

text \<open>
  The files of a given hashed form in a directory listing, and the configured allow-list
  of origins in production.
\<close>

definition hashedCandidate :: "string \<Rightarrow> string \<Rightarrow> string \<Rightarrow> bool" where
  "hashedCandidate entryName extension file \<longleftrightarrow>
     prefix (entryName @ ''-'') file \<and> suffix extension file"

definition allowList :: "unicode \<Rightarrow> cors_env \<Rightarrow> string list" where
  "allowList u env =
     (case map_option (trim u) (ALLOWED_ORIGIN env) of
        None \<Rightarrow> DEFAULT_ALLOWED_ORIGINS
      | Some v \<Rightarrow>
          if v = [] then DEFAULT_ALLOWED_ORIGINS
          else filter (\<lambda>origin. origin \<noteq> []) (map (trim u) (splitComma v)))"

text \<open>
  A deployment without a prebuilt list widget: two hashed scripts and an un-hashed style
  sheet in the asset directory, and a prebuilt preview document.
\<close>

definition assetsFs :: node_fs where
  "assetsFs =
     \<lparr>existsSync = (\<lambda>p. p \<in> set [''assets'', ''assets/article-list-b2.js'',
                                    ''assets/article-list-a1.js'', ''assets/article-list.css'',
                                    ''assets/article-preview.js'', ''ui-sdk'', ''ui-sdk/dist'',
                                    ''ui-sdk/dist/article-preview.html'']),
      readFileSync = map_of [(''assets/article-list-b2.js'', ''x = 1 </SCRIPT> 2''),
                             (''assets/article-list-a1.js'', ''x = 0''),
                             (''assets/article-list.css'', ''p{}''),
                             (''assets/article-preview.js'', ''y = 1''),
                             (''ui-sdk/dist/article-preview.html'', ''<html>prebuilt</html>'')],
      readdirSync = map_of [(''assets'', [''article-list-b2.js'', ''article-list-a1.js'',
                                          ''article-list.css'', ''article-preview.js'']),
                            (''ui-sdk'', [''dist'']),
                            (''ui-sdk/dist'', [''article-preview.html''])],
      pathJoin = (\<lambda>d f. d @ ''/'' @ f),
      distDir = ''ui-sdk/dist''\<rparr>"

text \<open>
  Nothing is built: the asset directory holds no asset, and its only entry, at the fallback
  path, is a directory, which exists and cannot be read as a file.
\<close>

definition brokenFallbackFs :: node_fs where
  "brokenFallbackFs =
     \<lparr>existsSync = (\<lambda>p. p = ''assets'' \<or> p = ''assets/fallback-widget.html''),
      readFileSync = (\<lambda>p. None),
      readdirSync = map_of [(''assets'', [''fallback-widget.html'']),
                            (''assets/fallback-widget.html'', [])],
      pathJoin = (\<lambda>d f. d @ ''/'' @ f),
      distDir = ''ui-sdk/dist''\<rparr>"

text \<open>Nothing exists at all.\<close>

definition emptyFs :: node_fs where
  "emptyFs =
     \<lparr>existsSync = (\<lambda>p. False),
      readFileSync = (\<lambda>p. None),
      readdirSync = (\<lambda>p. None),
      pathJoin = (\<lambda>d f. d @ ''/'' @ f),
      distDir = ''ui-sdk/dist''\<rparr>"

definition plainFormatters :: "unit formatters" where
  "plainFormatters =
     \<lparr>formatArticleList = (\<lambda>articles. ''(list)''),
      formatArticlePreview = (\<lambda>article. ''(preview)''),
      createSearchWidgetPayload = (\<lambda>query limit results. ()),
      createArticlePreviewWidgetPayload = (\<lambda>article. ()),
      numberToString = (\<lambda>n. ''(n)'')\<rparr>"

definition productionEnv :: cors_env where
  "productionEnv = \<lparr>isDevelopment = False, ALLOWED_ORIGIN = None\<rparr>"

definition developmentEnv :: cors_env where
  "developmentEnv = \<lparr>isDevelopment = True, ALLOWED_ORIGIN = None\<rparr>"

section \<open>The effective limit\<close>

lemma clampLimit_bounds: "1 \<le> clampLimit limit \<and> clampLimit limit \<le> 100"
  by (cases limit) (simp_all add: clampLimit_def DEFAULT_LIMIT_def MAX_LIMIT_def)

lemma slice0_clamped: "slice0 xs (clampLimit limit) = take (nat (clampLimit limit)) xs"
  using clampLimit_bounds [of limit] by (simp add: slice0_def)

lemma str_includes_sublist: "str_includes s q \<longleftrightarrow> sublist q s"
  by (induction s) (auto simp: sublist_Cons_right)

lemma fieldIncludes_matchesTerm: "fieldIncludes u field (toLowerCase u q) = matchesTerm u q field"
  by (cases field) (simp_all add: fieldIncludes_def matchesTerm_def str_includes_sublist)

lemma getAuthorRaw_nonempty: "getAuthorRaw u article = Some name \<Longrightarrow> name \<noteq> []"
  by (auto simp: getAuthorRaw_def Let_def split: option.splits author_field.splits if_splits)

lemma authorMatches_matchesTerm:
  "authorMatches u article (toLowerCase u q) = matchesTerm u q (getAuthorRaw u article)"
  by (cases "getAuthorRaw u article")
     (auto simp: authorMatches_def matchesTerm_def str_includes_sublist
        dest: getAuthorRaw_nonempty)

lemma matchesTerm_iff:
  "matchesTerm u q field
     \<longleftrightarrow> (\<exists>s. field = Some s \<and> sublist (toLowerCase u q) (toLowerCase u s))"
  by (cases field) (simp_all add: matchesTerm_def)

lemma searchArticles_filter:
  "searchArticles u st q limit =
     take (nat (clampLimit (defaultLimit limit)))
       (filter (\<lambda>article. matchesTerm u q (title article) \<or> matchesTerm u q (lead article)
                  \<or> matchesTerm u q (getAuthorRaw u article))
          (magazineArticles st))"
  by (simp add: searchArticles_def slice0_clamped Let_def fieldIncludes_matchesTerm
        authorMatches_matchesTerm)

lemma searchArticlesByTitle_filter:
  "searchArticlesByTitle u st q limit =
     take (nat (clampLimit (defaultLimit limit)))
       (filter (\<lambda>article. matchesTerm u q (title article)) (magazineArticles st))"
  by (simp add: searchArticlesByTitle_def slice0_clamped Let_def fieldIncludes_matchesTerm)

lemma filterArticlesByAuthor_filter:
  "filterArticlesByAuthor u dp st q limit =
     take (nat (clampLimit (defaultLimit limit)))
       (arraySort (newestFirst dp)
          (filter (\<lambda>article. matchesTerm u q (getAuthorRaw u article)) (magazineArticles st)))"
  by (simp add: filterArticlesByAuthor_def slice0_clamped Let_def authorMatches_matchesTerm)

lemma filterArticlesByDateRange_cases:
  "filterArticlesByDateRange dp st startDate endDate limit =
     (if rejected dp startDate then Inl (InvalidStartDate (the startDate))
      else if rejected dp endDate then Inl (InvalidEndDate (the endDate))
      else Inr (take (nat (clampLimit (defaultLimit limit)))
                  (arraySort (newestFirst dp)
                     (filter (withinBounds dp startDate endDate) (magazineArticles st)))))"
  by (cases startDate; cases endDate)
     (auto simp: filterArticlesByDateRange_def rejected_def withinBounds_def [abs_def] isValidDate_def
        slice0_clamped Let_def intro: filter_cong)

lemma length_insertSorted: "length (insertSorted cmp x ys) = Suc (length ys)"
  by (induction ys) auto

lemma length_arraySort: "length (arraySort cmp xs) = length xs"
  by (induction xs) (simp_all add: arraySort_def length_insertSorted)

text \<open>
  C1. The effective limit of the four queries is \<open>clampLimit\<close> of the limit after the
  parameter default. A missing limit gives 10, a limit above 100 gives 100, a limit in
  \<open>1..100\<close> is kept, and a non-positive limit gives 1 (the lower bound of the clamp,
  not the default). The effective limit is always between 1 and 100. Each query returns
  the first effective-limit entries of its full match list (for the date filters, of that
  list ordered newest first), so it returns as many entries as the smaller of the effective
  limit and the number of matches: never none when there is a match, and never more than 100.
\<close>

theorem effective_limit:
  "clampLimit None = 10
   \<and> clampLimit (defaultLimit None) = 10
   \<and> (100 < l \<longrightarrow> clampLimit (defaultLimit (Some l)) = 100)
   \<and> (l \<le> 0 \<longrightarrow> clampLimit (defaultLimit (Some l)) = 1)
   \<and> (1 \<le> l \<and> l \<le> 100 \<longrightarrow> clampLimit (defaultLimit (Some l)) = l)
   \<and> 1 \<le> clampLimit (defaultLimit limit) \<and> clampLimit (defaultLimit limit) \<le> 100
   \<and> (matchesTerm u q field
        \<longleftrightarrow> (\<exists>s. field = Some s \<and> sublist (toLowerCase u q) (toLowerCase u s)))
   \<and> searchArticles u st q limit =
       take (nat (clampLimit (defaultLimit limit)))
         (filter (\<lambda>a. matchesTerm u q (title a) \<or> matchesTerm u q (lead a)
                    \<or> matchesTerm u q (getAuthorRaw u a)) (magazineArticles st))
   \<and> length (searchArticles u st q limit) =
       min (nat (clampLimit (defaultLimit limit)))
         (length (filter (\<lambda>a. matchesTerm u q (title a) \<or> matchesTerm u q (lead a)
                    \<or> matchesTerm u q (getAuthorRaw u a)) (magazineArticles st)))
   \<and> searchArticlesByTitle u st q limit =
       take (nat (clampLimit (defaultLimit limit)))
         (filter (\<lambda>a. matchesTerm u q (title a)) (magazineArticles st))
   \<and> length (searchArticlesByTitle u st q limit) =
       min (nat (clampLimit (defaultLimit limit)))
         (length (filter (\<lambda>a. matchesTerm u q (title a)) (magazineArticles st)))
   \<and> filterArticlesByAuthor u dp st q limit =
       take (nat (clampLimit (defaultLimit limit)))
         (arraySort (newestFirst dp)
            (filter (\<lambda>a. matchesTerm u q (getAuthorRaw u a)) (magazineArticles st)))
   \<and> length (filterArticlesByAuthor u dp st q limit) =
       min (nat (clampLimit (defaultLimit limit)))
         (length (filter (\<lambda>a. matchesTerm u q (getAuthorRaw u a)) (magazineArticles st)))
   \<and> (\<not> rejected dp s \<and> \<not> rejected dp e \<longrightarrow>
        filterArticlesByDateRange dp st s e limit =
          Inr (take (nat (clampLimit (defaultLimit limit)))
                 (arraySort (newestFirst dp)
                    (filter (withinBounds dp s e) (magazineArticles st)))))
   \<and> (\<forall>res. filterArticlesByDateRange dp st s e limit = Inr res \<longrightarrow>
        length res =
          min (nat (clampLimit (defaultLimit limit)))
            (length (filter (withinBounds dp s e) (magazineArticles st))))"
proof -
  have "clampLimit None = 10" "clampLimit (defaultLimit None) = 10"
    by (simp_all add: clampLimit_def defaultLimit_def DEFAULT_LIMIT_def MAX_LIMIT_def)
  moreover have "100 < l \<longrightarrow> clampLimit (defaultLimit (Some l)) = 100"
    "l \<le> 0 \<longrightarrow> clampLimit (defaultLimit (Some l)) = 1"
    "1 \<le> l \<and> l \<le> 100 \<longrightarrow> clampLimit (defaultLimit (Some l)) = l"
    by (simp_all add: clampLimit_def defaultLimit_def MAX_LIMIT_def)
  moreover have "\<forall>res. filterArticlesByDateRange dp st s e limit = Inr res \<longrightarrow>
        length res =
          min (nat (clampLimit (defaultLimit limit)))
            (length (filter (withinBounds dp s e) (magazineArticles st)))"
    by (auto simp: filterArticlesByDateRange_cases length_arraySort min.commute
          split: if_splits)
  moreover have "\<not> rejected dp s \<and> \<not> rejected dp e \<longrightarrow>
        filterArticlesByDateRange dp st s e limit =
          Inr (take (nat (clampLimit (defaultLimit limit)))
                 (arraySort (newestFirst dp)
                    (filter (withinBounds dp s e) (magazineArticles st))))"
    by (simp add: filterArticlesByDateRange_cases)
  moreover have "length (searchArticles u st q limit) =
       min (nat (clampLimit (defaultLimit limit)))
         (length (filter (\<lambda>a. matchesTerm u q (title a) \<or> matchesTerm u q (lead a)
                    \<or> matchesTerm u q (getAuthorRaw u a)) (magazineArticles st)))"
    by (simp add: searchArticles_filter min.commute)
  moreover have "length (searchArticlesByTitle u st q limit) =
       min (nat (clampLimit (defaultLimit limit)))
         (length (filter (\<lambda>a. matchesTerm u q (title a)) (magazineArticles st)))"
    by (simp add: searchArticlesByTitle_filter min.commute)
  moreover have "length (filterArticlesByAuthor u dp st q limit) =
       min (nat (clampLimit (defaultLimit limit)))
         (length (filter (\<lambda>a. matchesTerm u q (getAuthorRaw u a)) (magazineArticles st)))"
    by (simp add: filterArticlesByAuthor_filter length_arraySort min.commute)
  ultimately show ?thesis
    using clampLimit_bounds [of "defaultLimit limit"] matchesTerm_iff [of u q field]
      searchArticles_filter [of u st q limit] searchArticlesByTitle_filter [of u st q limit]
      filterArticlesByAuthor_filter [of u dp st q limit]
    by blast
qed

theorem effective_limit_witness:
  "(100 < (250::int)) \<and> clampLimit (defaultLimit (Some 250)) = 100
   \<and> ((-3::int) \<le> 0) \<and> clampLimit (defaultLimit (Some (-3))) = 1
   \<and> (1 \<le> (7::int) \<and> (7::int) \<le> 100) \<and> clampLimit (defaultLimit (Some 7)) = 7
   \<and> \<not> rejected isoDateParse None
   \<and> length (searchArticles asciiOnly exampleIndex ''x'' None) = 2
   \<and> length (searchArticlesByTitle asciiOnly exampleIndex ''x'' (Some 1)) = 1
   \<and> filterArticlesByDateRange isoDateParse exampleIndex None None (Some 1)
       = Inr [exampleArticleB]"
proof -
  have m: "filter (\<lambda>a. matchesTerm asciiOnly ''x'' (title a) \<or> matchesTerm asciiOnly ''x'' (lead a)
                    \<or> matchesTerm asciiOnly ''x'' (getAuthorRaw asciiOnly a))
             (magazineArticles exampleIndex) = [exampleArticleA, exampleArticleB]"
    "filter (\<lambda>a. matchesTerm asciiOnly ''x'' (title a)) (magazineArticles exampleIndex)
       = [exampleArticleA, exampleArticleB]"
    by code_simp+
  have r: "\<not> rejected isoDateParse None"
    by (simp add: rejected_def)
  have d: "arraySort (newestFirst isoDateParse)
             (filter (withinBounds isoDateParse None None) (magazineArticles exampleIndex))
           = [exampleArticleB, exampleArticleA]"
    by code_simp
  have c: "clampLimit (defaultLimit None) = 10" "clampLimit (defaultLimit (Some 1)) = 1"
    by (simp_all add: clampLimit_def defaultLimit_def DEFAULT_LIMIT_def MAX_LIMIT_def)
  show ?thesis
    using effective_limit [of 250 None asciiOnly "''x''" _ exampleIndex isoDateParse None None]
      effective_limit [of "-3" "Some 1" asciiOnly "''x''" _ exampleIndex isoDateParse None None]
      effective_limit [of 7 "Some 1" asciiOnly "''x''" _ exampleIndex isoDateParse None None]
      m r d c
    by simp
qed

text \<open>
  The limit 0 is clamped to 1, not replaced by the default 10: of the two matches in the
  example corpus only the first is returned.
\<close>

theorem nonpositive_limit_counterexample:
  "clampLimit (defaultLimit (Some 0)) = 1
   \<and> clampLimit (defaultLimit (Some 0)) \<noteq> DEFAULT_LIMIT
   \<and> searchArticles asciiOnly exampleIndex ''x'' (Some 10) = [exampleArticleA, exampleArticleB]
   \<and> searchArticles asciiOnly exampleIndex ''x'' (Some 0) = [exampleArticleA]"
  by code_simp

section \<open>Loading establishes the index invariant\<close>

lemma dropWhile_fixed: "xs = [] \<or> \<not> P (hd xs) \<Longrightarrow> dropWhile P xs = xs"
  by (cases xs) auto

lemma dropWhile_head: "dropWhile P xs = [] \<or> \<not> P (hd (dropWhile P xs))"
  using hd_dropWhile [of P xs] by blast

lemma trim_edges:
  "trim u s = [] \<or> (\<not> isWhiteSpace u (hd (trim u s)) \<and> \<not> isWhiteSpace u (last (trim u s)))"
proof (cases "trim u s = []")
  case True
  then show ?thesis by simp
next
  case False
  define y where "y = dropWhile (isWhiteSpace u) s"
  define z where "z = dropWhile (isWhiteSpace u) (rev y)"
  have t: "trim u s = rev z"
    by (simp add: trim_def y_def z_def)
  with False have z: "z \<noteq> []" by simp
  then have last_ok: "\<not> isWhiteSpace u (hd z)"
    using dropWhile_head [of "isWhiteSpace u" "rev y"] unfolding z_def by blast
  obtain p where p: "rev y = p @ z"
    unfolding z_def by (metis takeWhile_dropWhile_id)
  then have "y = rev z @ rev p"
    by (metis rev_append rev_rev_ident)
  with z have "hd y = hd (rev z)" by simp
  moreover have "y \<noteq> []"
    using p z by auto
  then have "\<not> isWhiteSpace u (hd y)"
    using dropWhile_head [of "isWhiteSpace u" s] unfolding y_def by blast
  ultimately have "\<not> isWhiteSpace u (hd (rev z))" by simp
  moreover have "last (rev z) = hd z"
    using z by (simp add: last_rev)
  ultimately show ?thesis
    using t last_ok by simp
qed

lemma trim_fixed:
  assumes "s = [] \<or> (\<not> isWhiteSpace u (hd s) \<and> \<not> isWhiteSpace u (last s))"
  shows "trim u s = s"
proof (cases "s = []")
  case True
  then show ?thesis by (simp add: trim_def)
next
  case False
  with assms have h: "\<not> isWhiteSpace u (hd s)" and l: "\<not> isWhiteSpace u (last s)" by auto
  have "dropWhile (isWhiteSpace u) s = s"
    using h by (simp add: dropWhile_fixed)
  moreover have "dropWhile (isWhiteSpace u) (rev s) = rev s"
    using l False by (simp add: dropWhile_fixed hd_rev)
  ultimately show ?thesis
    by (simp add: trim_def)
qed

lemma trim_idem: "trim u (trim u s) = trim u s"
  using trim_edges [of u s] by (rule trim_fixed)

lemma truthy_trimmed: "truthy (map_option (trim u) field) = trimmedNonEmpty u (map_option (trim u) field)"
  by (cases field) (simp_all add: trimmedNonEmpty_def trim_idem)

lemma isLoadedArticle_wellFormed:
  "isLoadedArticle u dp r \<longleftrightarrow> wellFormed u dp (normalizeLoaded u r)"
proof (cases "publicationDate r")
  case None
  then show ?thesis
    by (simp add: isLoadedArticle_def wellFormed_def normalizeLoaded_def trimmedNonEmpty_def)
next
  case (Some d)
  then show ?thesis
    by (auto simp: isLoadedArticle_def wellFormed_def normalizeLoaded_def truthy_trimmed
          pubTime_def trimmedNonEmpty_def trim_idem Let_def)
qed

lemma buildSlugIndex_fold:
  "fold (\<lambda>article m. m(slug article \<mapsto> article)) xs m0 k = Some a
     \<Longrightarrow> (a \<in> set xs \<and> slug a = k) \<or> m0 k = Some a"
  by (induction xs arbitrary: m0) (fastforce split: if_splits)+

lemma buildSlugIndex_fold_keys:
  "k \<in> slug ` set xs \<or> m0 k \<noteq> None
     \<Longrightarrow> fold (\<lambda>article m. m(slug article \<mapsto> article)) xs m0 k \<noteq> None"
  by (induction xs arbitrary: m0) auto

lemma buildSlugIndex_keys: "a \<in> set xs \<Longrightarrow> buildSlugIndex xs (slug a) \<noteq> None"
  using buildSlugIndex_fold_keys [of "slug a" xs Map.empty] by (simp add: buildSlugIndex_def)

lemma buildSlugIndex_entries:
  "buildSlugIndex xs k = Some a \<Longrightarrow> a \<in> set xs \<and> slug a = k"
  using buildSlugIndex_fold [of xs Map.empty k a] by (simp add: buildSlugIndex_def)

lemma set_insertSorted: "set (insertSorted cmp x ys) = insert x (set ys)"
  by (induction ys) auto

lemma set_arraySort: "set (arraySort cmp xs) = set xs"
  by (induction xs) (simp_all add: arraySort_def set_insertSorted)

lemma searchArticles_subset: "set (searchArticles u st q limit) \<subseteq> set (magazineArticles st)"
  by (auto simp: searchArticles_def slice0_clamped Let_def dest: in_set_takeD)

lemma searchArticlesByTitle_subset:
  "set (searchArticlesByTitle u st q limit) \<subseteq> set (magazineArticles st)"
  by (auto simp: searchArticlesByTitle_def slice0_clamped Let_def dest: in_set_takeD)

lemma filterArticlesByAuthor_subset:
  "set (filterArticlesByAuthor u dp st q limit) \<subseteq> set (magazineArticles st)"
  by (auto simp: filterArticlesByAuthor_def slice0_clamped Let_def set_arraySort dest!: in_set_takeD)

lemma filterArticlesByDateRange_subset:
  "filterArticlesByDateRange dp st s e limit = Inr res \<Longrightarrow> set res \<subseteq> set (magazineArticles st)"
  by (auto simp: filterArticlesByDateRange_cases set_arraySort split: if_splits dest!: in_set_takeD)

lemma load_success:
  assumes "loadMagazineArticles u fs jp dp path = (Inr (), st)"
  shows "\<exists>data raw. existsSync fs path \<and> readFileSync fs path = Some data \<and> jp data = Some raw
           \<and> magazineArticles st = map (normalizeLoaded u) (filter (isLoadedArticle u dp) raw)
           \<and> articlesBySlug st = buildSlugIndex (magazineArticles st)"
  using assms
  by (auto simp: loadMagazineArticles_def Let_def split: if_splits option.splits)

lemma load_wellFormed:
  assumes "loadMagazineArticles u fs jp dp path = (Inr (), st)"
  shows "\<forall>a\<in>set (magazineArticles st). wellFormed u dp a"
  using load_success [OF assms] by (auto simp: isLoadedArticle_wellFormed)

lemma isLoadedArticle_iff:
  "isLoadedArticle u dp r \<longleftrightarrow>
     (\<exists>s t d. slug r = Some s \<and> title r = Some t \<and> publicationDate r = Some d
        \<and> trim u s \<noteq> [] \<and> trim u t \<noteq> [] \<and> trim u d \<noteq> [] \<and> dp (trim u d) \<noteq> None)"
  by (cases "slug r"; cases "title r"; cases "publicationDate r")
     (simp_all add: isLoadedArticle_def Let_def)

lemma wellFormed_iff:
  "wellFormed u dp a \<longleftrightarrow>
     (\<exists>s t d. slug a = Some s \<and> title a = Some t \<and> publicationDate a = Some d
        \<and> s \<noteq> [] \<and> trim u s = s \<and> t \<noteq> [] \<and> trim u t = t \<and> d \<noteq> [] \<and> trim u d = d
        \<and> dp d \<noteq> None)"
  unfolding wellFormed_def trimmedNonEmpty_def pubTime_def
  by (cases "slug a"; cases "title a"; cases "publicationDate a"; simp)

text \<open>
  C6. After a successful \<open>loadMagazineArticles\<close> every article of \<open>magazineArticles\<close>
  and of the slug map has a non-empty trimmed slug, a non-empty trimmed title and a
  non-empty trimmed publication date that parses. The index holds, in file order, the
  normalised form (the three fields trimmed) of exactly those records of the file whose
  slug, title and publication date are present and not blank and whose trimmed publication
  date parses; every other record is dropped, and the four queries return articles of the
  index only.
\<close>

theorem load_invariant:
  assumes "loadMagazineArticles u fs jp dp path = (Inr (), st)"
  shows "(\<forall>a\<in>set (magazineArticles st). wellFormed u dp a)
    \<and> (\<forall>k a. articlesBySlug st k = Some a
          \<longrightarrow> a \<in> set (magazineArticles st) \<and> slug a = k \<and> wellFormed u dp a)
    \<and> (\<forall>a\<in>set (magazineArticles st). articlesBySlug st (slug a) \<noteq> None)
    \<and> (\<exists>data raw. readFileSync fs path = Some data \<and> jp data = Some raw
          \<and> magazineArticles st = map (normalizeLoaded u) (filter (isLoadedArticle u dp) raw)
          \<and> magazineArticles st = filter (wellFormed u dp) (map (normalizeLoaded u) raw))
    \<and> (isLoadedArticle u dp r \<longleftrightarrow>
         (\<exists>s t d. slug r = Some s \<and> title r = Some t \<and> publicationDate r = Some d
            \<and> trim u s \<noteq> [] \<and> trim u t \<noteq> [] \<and> trim u d \<noteq> []
            \<and> dp (trim u d) \<noteq> None))
    \<and> normalizeLoaded u r =
         r\<lparr>slug := map_option (trim u) (slug r), title := map_option (trim u) (title r),
           publicationDate := map_option (trim u) (publicationDate r)\<rparr>
    \<and> (wellFormed u dp r \<longleftrightarrow>
         (\<exists>s t d. slug r = Some s \<and> title r = Some t \<and> publicationDate r = Some d
            \<and> s \<noteq> [] \<and> trim u s = s \<and> t \<noteq> [] \<and> trim u t = t \<and> d \<noteq> [] \<and> trim u d = d
            \<and> dp d \<noteq> None))
    \<and> (\<forall>a\<in>set (searchArticles u st q limit). wellFormed u dp a)
    \<and> (\<forall>a\<in>set (searchArticlesByTitle u st q limit). wellFormed u dp a)
    \<and> (\<forall>a\<in>set (filterArticlesByAuthor u dp st q limit). wellFormed u dp a)
    \<and> (\<forall>res. filterArticlesByDateRange dp st s e limit = Inr res
          \<longrightarrow> (\<forall>a\<in>set res. wellFormed u dp a))"
proof -
  have wf: "\<forall>a\<in>set (magazineArticles st). wellFormed u dp a"
    by (rule load_wellFormed [OF assms])
  obtain data raw where d: "readFileSync fs path = Some data" "jp data = Some raw"
    and m: "magazineArticles st = map (normalizeLoaded u) (filter (isLoadedArticle u dp) raw)"
    and b: "articlesBySlug st = buildSlugIndex (magazineArticles st)"
    using load_success [OF assms] by blast
  have "isLoadedArticle u dp = (\<lambda>r. wellFormed u dp (normalizeLoaded u r))"
    by (rule ext) (rule isLoadedArticle_wellFormed)
  then have "map (normalizeLoaded u) (filter (isLoadedArticle u dp) raw)
          = filter (wellFormed u dp) (map (normalizeLoaded u) raw)"
    by (simp add: filter_map comp_def)
  with d m have ex: "\<exists>data raw. readFileSync fs path = Some data \<and> jp data = Some raw
          \<and> magazineArticles st = map (normalizeLoaded u) (filter (isLoadedArticle u dp) raw)
          \<and> magazineArticles st = filter (wellFormed u dp) (map (normalizeLoaded u) raw)"
    by simp
  have slugs: "\<forall>k a. articlesBySlug st k = Some a
                 \<longrightarrow> a \<in> set (magazineArticles st) \<and> slug a = k \<and> wellFormed u dp a"
    using b wf buildSlugIndex_entries by metis
  have keys: "\<forall>a\<in>set (magazineArticles st). articlesBySlug st (slug a) \<noteq> None"
    unfolding b by (simp add: buildSlugIndex_keys)
  have norm: "normalizeLoaded u r =
         r\<lparr>slug := map_option (trim u) (slug r), title := map_option (trim u) (title r),
           publicationDate := map_option (trim u) (publicationDate r)\<rparr>"
    by (simp add: normalizeLoaded_def)
  have i1: "isLoadedArticle u dp r \<longleftrightarrow>
         (\<exists>s t d. slug r = Some s \<and> title r = Some t \<and> publicationDate r = Some d
            \<and> trim u s \<noteq> [] \<and> trim u t \<noteq> [] \<and> trim u d \<noteq> []
            \<and> dp (trim u d) \<noteq> None)"
    by (rule isLoadedArticle_iff)
  have i2: "wellFormed u dp r \<longleftrightarrow>
         (\<exists>s t d. slug r = Some s \<and> title r = Some t \<and> publicationDate r = Some d
            \<and> s \<noteq> [] \<and> trim u s = s \<and> t \<noteq> [] \<and> trim u t = t \<and> d \<noteq> [] \<and> trim u d = d
            \<and> dp d \<noteq> None)"
    by (rule wellFormed_iff)
  have q1: "\<forall>a\<in>set (searchArticles u st q limit). wellFormed u dp a"
    using wf searchArticles_subset [of u st q limit] by blast
  have q2: "\<forall>a\<in>set (searchArticlesByTitle u st q limit). wellFormed u dp a"
    using wf searchArticlesByTitle_subset [of u st q limit] by blast
  have q3: "\<forall>a\<in>set (filterArticlesByAuthor u dp st q limit). wellFormed u dp a"
    using wf filterArticlesByAuthor_subset [of u dp st q limit] by blast
  have q4: "\<forall>res. filterArticlesByDateRange dp st s e limit = Inr res
          \<longrightarrow> (\<forall>a\<in>set res. wellFormed u dp a)"
    using wf filterArticlesByDateRange_subset [of dp st s e limit] by blast
  show ?thesis
    by (intro conjI) (rule wf slugs keys ex i1 norm i2 q1 q2 q3 q4)+
qed

lemma example_load:
  "loadMagazineArticles asciiOnly exampleFs exampleJson isoDateParse ''blogposts.en.json''
     = (Inr (), exampleIndex)"
proof -
  have "map (normalizeLoaded asciiOnly) (filter (isLoadedArticle asciiOnly isoDateParse) exampleRaw)
          = [exampleArticleA, exampleArticleB]"
    by code_simp
  moreover have "buildSlugIndex [exampleArticleA, exampleArticleB]
          = [Some ''a'' \<mapsto> exampleArticleA, Some ''b'' \<mapsto> exampleArticleB]"
    by (simp add: buildSlugIndex_def exampleArticleA_def exampleArticleB_def)
  ultimately show ?thesis
    by (simp add: loadMagazineArticles_def exampleFs_def exampleJson_def exampleIndex_def)
qed

lemma example_load_nbsp:
  "loadMagazineArticles withNoBreakSpace exampleFs exampleJson isoDateParse ''blogposts.en.json''
     = (Inr (), exampleIndex)"
proof -
  have "map (normalizeLoaded withNoBreakSpace)
          (filter (isLoadedArticle withNoBreakSpace isoDateParse) exampleRaw)
          = [exampleArticleA, exampleArticleB]"
    by code_simp
  moreover have "buildSlugIndex [exampleArticleA, exampleArticleB]
          = [Some ''a'' \<mapsto> exampleArticleA, Some ''b'' \<mapsto> exampleArticleB]"
    by (simp add: buildSlugIndex_def exampleArticleA_def exampleArticleB_def)
  ultimately show ?thesis
    by (simp add: loadMagazineArticles_def exampleFs_def exampleJson_def exampleIndex_def)
qed

theorem load_invariant_witness:
  "loadMagazineArticles asciiOnly exampleFs exampleJson isoDateParse ''blogposts.en.json''
     = (Inr (), exampleIndex)
   \<and> wellFormed asciiOnly isoDateParse exampleArticleA
   \<and> wellFormed asciiOnly isoDateParse exampleArticleB
   \<and> magazineArticles exampleIndex = [exampleArticleA, exampleArticleB]
   \<and> loadMagazineArticles withNoBreakSpace exampleFs exampleJson isoDateParse
        ''blogposts.en.json'' = (Inr (), exampleIndex)
   \<and> \<not> isLoadedArticle withNoBreakSpace isoDateParse blankTitleRecord"
proof -
  have "\<forall>a\<in>set (magazineArticles exampleIndex). wellFormed asciiOnly isoDateParse a"
    by (rule load_invariant [OF example_load, THEN conjunct1])
  then have w: "wellFormed asciiOnly isoDateParse exampleArticleA"
    "wellFormed asciiOnly isoDateParse exampleArticleB"
    by (simp_all add: exampleIndex_def)
  have "isLoadedArticle withNoBreakSpace isoDateParse blankTitleRecord \<longleftrightarrow>
         (\<exists>s t d. slug blankTitleRecord = Some s \<and> title blankTitleRecord = Some t
            \<and> publicationDate blankTitleRecord = Some d
            \<and> trim withNoBreakSpace s \<noteq> [] \<and> trim withNoBreakSpace t \<noteq> []
            \<and> trim withNoBreakSpace d \<noteq> [] \<and> isoDateParse (trim withNoBreakSpace d) \<noteq> None)"
    by (rule load_invariant [OF example_load_nbsp, of blankTitleRecord "[]" None None None,
          THEN conjunct2, THEN conjunct2, THEN conjunct2, THEN conjunct2, THEN conjunct1])
  moreover have "title blankTitleRecord = Some [CHR 0xA0]"
    by (simp add: blankTitleRecord_def)
  moreover have "trim withNoBreakSpace [CHR 0xA0] = []"
    by code_simp
  ultimately have n: "\<not> isLoadedArticle withNoBreakSpace isoDateParse blankTitleRecord"
    by auto
  show ?thesis
    using w n example_load example_load_nbsp by (simp add: exampleIndex_def)
qed

section \<open>Searching\<close>

lemma trim_empty: "trim u [] = []"
  by (simp add: trim_def)

lemma getAuthorRaw_cases:
  "getAuthorRaw u article =
     (case author article of
        None \<Rightarrow> None
      | Some (AuthorString s) \<Rightarrow> if trim u s = [] then None else Some (trim u s)
      | Some (AuthorObject None) \<Rightarrow> None
      | Some (AuthorObject (Some n)) \<Rightarrow> if trim u n = [] then None else Some (trim u n))"
  by (simp add: getAuthorRaw_def Let_def trim_empty split: option.splits author_field.splits)

lemma example_search_general:
  assumes "toLowerCase u ''x'' = ''x''" and "toLowerCase u ''Intro to X'' = ''intro to x''"
    and "toLowerCase u ''X continued'' = ''x continued''"
  shows "searchArticles u exampleIndex ''x'' (Some 10) = [exampleArticleA, exampleArticleB]"
proof -
  have "sublist ''x'' ''intro to x''" "sublist ''x'' ''x continued''"
    by code_simp+
  then have "matchesTerm u ''x'' (title exampleArticleA)" "matchesTerm u ''x'' (title exampleArticleB)"
    using assms by (simp_all add: matchesTerm_def exampleArticleA_def exampleArticleB_def)
  moreover have "clampLimit (defaultLimit (Some 10)) = 10"
    by (simp add: clampLimit_def defaultLimit_def MAX_LIMIT_def)
  ultimately show ?thesis
    by (simp add: searchArticles_filter exampleIndex_def)
qed

text \<open>
  C7. \<open>searchArticles\<close> returns, in corpus order and truncated to the effective limit,
  exactly the articles for which the lower-cased term is a substring of the lower-cased
  title, of the lower-cased lead or of the lower-cased author name. The author name is
  the one the article carries: the trimmed author string, or the trimmed name of the
  author object, when that is not empty. An article that carries no author name never
  matches on the author field; its display name \<open>Editorial team\<close> is not searched. On
  the two-article example corpus the term \<open>x\<close> with limit 10 returns both articles in load
  order, whenever the lower case of the term and of the two titles is the expected one.
\<close>

theorem search_matches:
  "searchArticles u st q limit =
     take (nat (clampLimit (defaultLimit limit)))
       (filter (\<lambda>article. matchesTerm u q (title article) \<or> matchesTerm u q (lead article)
                  \<or> matchesTerm u q (getAuthorRaw u article))
          (magazineArticles st))
   \<and> (matchesTerm u q field
        \<longleftrightarrow> (\<exists>s. field = Some s \<and> sublist (toLowerCase u q) (toLowerCase u s)))
   \<and> getAuthorRaw u article =
       (case author article of
          None \<Rightarrow> None
        | Some (AuthorString s) \<Rightarrow> if trim u s = [] then None else Some (trim u s)
        | Some (AuthorObject None) \<Rightarrow> None
        | Some (AuthorObject (Some n)) \<Rightarrow> if trim u n = [] then None else Some (trim u n))
   \<and> getAuthorName u article =
       (case getAuthorRaw u article of None \<Rightarrow> ''Editorial team'' | Some name \<Rightarrow> name)
   \<and> (getAuthorRaw u article = None \<longrightarrow> \<not> matchesTerm u q (getAuthorRaw u article))
   \<and> (toLowerCase u ''x'' = ''x'' \<and> toLowerCase u ''Intro to X'' = ''intro to x''
        \<and> toLowerCase u ''X continued'' = ''x continued''
      \<longrightarrow> searchArticles u exampleIndex ''x'' (Some 10) = [exampleArticleA, exampleArticleB])"
proof -
  have none: "getAuthorRaw u article = None \<longrightarrow> \<not> matchesTerm u q (getAuthorRaw u article)"
    by (simp add: matchesTerm_def)
  have name: "getAuthorName u article =
       (case getAuthorRaw u article of None \<Rightarrow> ''Editorial team'' | Some name \<Rightarrow> name)"
    by (simp add: getAuthorName_def)
  have ex: "toLowerCase u ''x'' = ''x'' \<and> toLowerCase u ''Intro to X'' = ''intro to x''
        \<and> toLowerCase u ''X continued'' = ''x continued''
      \<longrightarrow> searchArticles u exampleIndex ''x'' (Some 10) = [exampleArticleA, exampleArticleB]"
    using example_search_general [of u] by blast
  show ?thesis
    by (intro conjI)
       (rule searchArticles_filter matchesTerm_iff getAuthorRaw_cases name none ex)+
qed

theorem search_matches_witness:
  "toLowerCase asciiOnly ''x'' = ''x'' \<and> toLowerCase asciiOnly ''Intro to X'' = ''intro to x''
   \<and> toLowerCase asciiOnly ''X continued'' = ''x continued''
   \<and> searchArticles asciiOnly exampleIndex ''x'' (Some 10) = [exampleArticleA, exampleArticleB]
   \<and> getAuthorRaw asciiOnly anonymousArticle = None
   \<and> \<not> matchesTerm asciiOnly ''team'' (getAuthorRaw asciiOnly anonymousArticle)"
proof -
  have l: "toLowerCase asciiOnly ''x'' = ''x''"
    "toLowerCase asciiOnly ''Intro to X'' = ''intro to x''"
    "toLowerCase asciiOnly ''X continued'' = ''x continued''"
    by code_simp+
  have a: "getAuthorRaw asciiOnly anonymousArticle = None"
    by code_simp
  note s = search_matches [of asciiOnly exampleIndex "''team''" None None anonymousArticle]
  have "searchArticles asciiOnly exampleIndex ''x'' (Some 10) = [exampleArticleA, exampleArticleB]"
    using s l by blast
  moreover have "\<not> matchesTerm asciiOnly ''team'' (getAuthorRaw asciiOnly anonymousArticle)"
    using s a by blast
  ultimately show ?thesis
    using l a by blast
qed

text \<open>
  The display name of an article without an author is \<open>Editorial team\<close>, which contains
  the term \<open>editorial\<close>; the search does not return the article.
\<close>

theorem search_display_name_counterexample:
  "getAuthorName asciiOnly anonymousArticle = ''Editorial team''
   \<and> sublist (toLowerCase asciiOnly ''editorial'')
        (toLowerCase asciiOnly (getAuthorName asciiOnly anonymousArticle))
   \<and> searchArticles asciiOnly anonymousIndex ''editorial'' (Some 10) = []"
  by code_simp

lemma str_includes_empty: "str_includes s []"
  by (cases s) simp_all

lemma empty_query_all:
  assumes "\<forall>a\<in>set (magazineArticles st). wellFormed u dp a"
  shows "searchArticles u st [] limit = take (nat (clampLimit (defaultLimit limit))) (magazineArticles st)"
proof -
  have "\<forall>a\<in>set (magazineArticles st). fieldIncludes u (title a) []"
    using assms
    by (auto simp: wellFormed_def trimmedNonEmpty_def fieldIncludes_def str_includes_empty
          split: option.splits)
  then have "filter (\<lambda>article. fieldIncludes u (title article) [] \<or> fieldIncludes u (lead article) []
                \<or> authorMatches u article []) (magazineArticles st) = magazineArticles st"
    by (simp add: filter_id_conv)
  then show ?thesis
    by (simp add: searchArticles_def slice0_clamped Let_def toLowerCase_def)
qed

text \<open>
  C10. On the index left by a successful load, \<open>searchArticles\<close> with the empty query
  matches every article: for every limit it returns the first effective-limit articles in
  load order, it is never an error, and it is not empty unless the index is.
\<close>

theorem empty_query_matches_all:
  assumes "loadMagazineArticles u fs jp dp path = (Inr (), st)"
  shows "searchArticles u st [] limit = take (nat (clampLimit (defaultLimit limit))) (magazineArticles st)
    \<and> length (searchArticles u st [] limit)
        = min (nat (clampLimit (defaultLimit limit))) (length (magazineArticles st))
    \<and> (magazineArticles st \<noteq> [] \<longrightarrow> searchArticles u st [] limit \<noteq> [])"
proof -
  have eq: "searchArticles u st [] limit
              = take (nat (clampLimit (defaultLimit limit))) (magazineArticles st)"
    by (rule empty_query_all [OF load_wellFormed [OF assms]])
  have "0 < nat (clampLimit (defaultLimit limit))"
    using clampLimit_bounds [of "defaultLimit limit"] by linarith
  then have "magazineArticles st \<noteq> [] \<longrightarrow> searchArticles u st [] limit \<noteq> []"
    by (simp add: eq)
  with eq show ?thesis
    by (simp add: min.commute)
qed

theorem empty_query_matches_all_witness:
  "loadMagazineArticles asciiOnly exampleFs exampleJson isoDateParse ''blogposts.en.json''
     = (Inr (), exampleIndex)
   \<and> magazineArticles exampleIndex \<noteq> []
   \<and> searchArticles asciiOnly exampleIndex [] (Some 1) = [exampleArticleA]
   \<and> searchArticles asciiOnly exampleIndex [] None = [exampleArticleA, exampleArticleB]"
  using empty_query_matches_all [OF example_load, of "Some 1"]
    empty_query_matches_all [OF example_load, of None]
  by (simp add: example_load exampleIndex_def clampLimit_def defaultLimit_def DEFAULT_LIMIT_def
        MAX_LIMIT_def)

section \<open>Date filters\<close>

lemma insertSorted_insort:
  assumes "pubTime dp x \<noteq> None" and "\<forall>y\<in>set ys. pubTime dp y \<noteq> None"
  shows "insertSorted (newestFirst dp) x ys = insort_key (newestKey dp) x ys"
  using assms
  by (induction ys) (auto simp: newestFirst_def newestKey_def)

lemma arraySort_sort_key:
  assumes "\<forall>y\<in>set xs. pubTime dp y \<noteq> None"
  shows "arraySort (newestFirst dp) xs = sort_key (newestKey dp) xs"
  using assms
proof (induction xs)
  case Nil
  then show ?case by (simp add: arraySort_def)
next
  case (Cons x xs)
  then have "arraySort (newestFirst dp) xs = sort_key (newestKey dp) xs" by simp
  moreover have "\<forall>y\<in>set (sort_key (newestKey dp) xs). pubTime dp y \<noteq> None"
    using Cons.prems by simp
  ultimately show ?case
    using Cons.prems
    by (simp add: arraySort_def sort_key_def insertSorted_insort)
qed

lemma newestKey_le:
  assumes "pubTime dp a \<noteq> None" and "pubTime dp b \<noteq> None"
  shows "newestKey dp a \<le> newestKey dp b \<longleftrightarrow> numGe (pubTime dp a) (pubTime dp b)"
  using assms by (auto simp: newestKey_def)

lemma newestKey_eq:
  assumes "pubTime dp a \<noteq> None" and "pubTime dp b \<noteq> None"
  shows "newestKey dp b = newestKey dp a \<longleftrightarrow> pubTime dp b = pubTime dp a"
  using assms by (auto simp: newestKey_def)

lemma arraySort_newestFirstStable:
  assumes "\<forall>y\<in>set xs. pubTime dp y \<noteq> None"
  shows "newestFirstStable dp (arraySort (newestFirst dp) xs) xs"
proof -
  let ?s = "sort_key (newestKey dp) xs"
  have valid: "\<forall>y\<in>set ?s. pubTime dp y \<noteq> None"
    using assms by simp
  have "sorted_wrt (\<lambda>a b. newestKey dp a \<le> newestKey dp b) ?s"
    using sorted_sort_key [of "newestKey dp" xs] by (simp add: sorted_map)
  then have ordered: "sorted_wrt (\<lambda>a b. numGe (pubTime dp a) (pubTime dp b)) ?s"
    by (rule sorted_wrt_mono_rel [rotated]) (use valid in \<open>simp add: newestKey_le\<close>)
  have stable: "filter (\<lambda>b. pubTime dp b = pubTime dp a) ?s
                  = filter (\<lambda>b. pubTime dp b = pubTime dp a) xs" if "a \<in> set xs" for a
  proof -
    have "filter (\<lambda>b. pubTime dp b = pubTime dp a) ?s
            = filter (\<lambda>b. newestKey dp b = newestKey dp a) ?s"
      by (rule filter_cong) (use valid assms that in \<open>simp_all add: newestKey_eq\<close>)
    also have "\<dots> = filter (\<lambda>b. newestKey dp b = newestKey dp a) xs"
      by (rule sort_key_stable)
    also have "\<dots> = filter (\<lambda>b. pubTime dp b = pubTime dp a) xs"
      by (rule filter_cong) (use assms that in \<open>simp_all add: newestKey_eq\<close>)
    finally show ?thesis .
  qed
  show ?thesis
    using ordered stable
    by (simp add: newestFirstStable_def arraySort_sort_key [OF assms])
qed

lemma sorted_wrt_take_drop:
  assumes "sorted_wrt R xs"
  shows "\<forall>a\<in>set (take n xs). \<forall>b\<in>set (drop n xs). R a b"
proof -
  have "sorted_wrt R (take n xs @ drop n xs)"
    using assms by simp
  then show ?thesis
    unfolding sorted_wrt_append by blast
qed

lemma filterArticlesByAuthor_sorted:
  assumes "\<forall>a\<in>set (magazineArticles st). wellFormed u dp a"
  shows "\<exists>full. newestFirstStable dp full
                  (filter (\<lambda>a. authorMatches u a (toLowerCase u name)) (magazineArticles st))
           \<and> filterArticlesByAuthor u dp st name limit
               = take (nat (clampLimit (defaultLimit limit))) full"
proof -
  let ?m = "filter (\<lambda>a. authorMatches u a (toLowerCase u name)) (magazineArticles st)"
  have "\<forall>y\<in>set ?m. pubTime dp y \<noteq> None"
    using assms by (simp add: wellFormed_def)
  then have "newestFirstStable dp (arraySort (newestFirst dp) ?m) ?m"
    by (rule arraySort_newestFirstStable)
  then show ?thesis
    by (auto simp: filterArticlesByAuthor_def slice0_clamped Let_def)
qed

lemma filterArticlesByDateRange_sorted:
  assumes "\<forall>a\<in>set (magazineArticles st). wellFormed u dp a"
    and "\<not> rejected dp startDate" and "\<not> rejected dp endDate"
  shows "\<exists>full. newestFirstStable dp full
                  (filter (withinBounds dp startDate endDate) (magazineArticles st))
           \<and> filterArticlesByDateRange dp st startDate endDate limit
               = Inr (take (nat (clampLimit (defaultLimit limit))) full)"
proof -
  let ?m = "filter (withinBounds dp startDate endDate) (magazineArticles st)"
  have "\<forall>y\<in>set ?m. pubTime dp y \<noteq> None"
    using assms(1) by (simp add: wellFormed_def)
  then have "newestFirstStable dp (arraySort (newestFirst dp) ?m) ?m"
    by (rule arraySort_newestFirstStable)
  then show ?thesis
    using assms(2,3) by (auto simp: filterArticlesByDateRange_cases)
qed

text \<open>
  C2. On an index whose articles satisfy the load invariant, \<open>filterArticlesByAuthor\<close>
  and \<open>filterArticlesByDateRange\<close> return the first effective-limit entries of the full
  match list ordered by publication time, newest first: consecutive entries have
  non-increasing times, articles of equal time keep their corpus order, and every entry
  returned is at least as new as every match cut off by the limit.
\<close>

theorem date_filters_newest_first:
  assumes "\<forall>a\<in>set (magazineArticles st). wellFormed u dp a"
  shows "(\<exists>full. newestFirstStable dp full
                  (filter (\<lambda>a. authorMatches u a (toLowerCase u name)) (magazineArticles st))
            \<and> filterArticlesByAuthor u dp st name limit
                = take (nat (clampLimit (defaultLimit limit))) full
            \<and> (\<forall>a\<in>set (take (nat (clampLimit (defaultLimit limit))) full).
                 \<forall>b\<in>set (drop (nat (clampLimit (defaultLimit limit))) full).
                   numGe (pubTime dp a) (pubTime dp b)))
    \<and> (\<not> rejected dp startDate \<and> \<not> rejected dp endDate \<longrightarrow>
         (\<exists>full. newestFirstStable dp full
                  (filter (withinBounds dp startDate endDate) (magazineArticles st))
            \<and> filterArticlesByDateRange dp st startDate endDate limit
                = Inr (take (nat (clampLimit (defaultLimit limit))) full)
            \<and> (\<forall>a\<in>set (take (nat (clampLimit (defaultLimit limit))) full).
                 \<forall>b\<in>set (drop (nat (clampLimit (defaultLimit limit))) full).
                   numGe (pubTime dp a) (pubTime dp b))))
    \<and> sorted_wrt (\<lambda>a b. numGe (pubTime dp a) (pubTime dp b))
         (filterArticlesByAuthor u dp st name limit)
    \<and> (\<forall>res. filterArticlesByDateRange dp st startDate endDate limit = Inr res
          \<longrightarrow> sorted_wrt (\<lambda>a b. numGe (pubTime dp a) (pubTime dp b)) res)"
proof -
  let ?n = "nat (clampLimit (defaultLimit limit))"
  let ?R = "\<lambda>a b. numGe (pubTime dp a) (pubTime dp b)"
  obtain fa where fa: "newestFirstStable dp fa
        (filter (\<lambda>a. authorMatches u a (toLowerCase u name)) (magazineArticles st))"
      "filterArticlesByAuthor u dp st name limit = take ?n fa"
    using filterArticlesByAuthor_sorted [OF assms] by blast
  then have sa: "sorted_wrt ?R fa"
    by (simp add: newestFirstStable_def)
  have author: "\<exists>full. newestFirstStable dp full
                  (filter (\<lambda>a. authorMatches u a (toLowerCase u name)) (magazineArticles st))
            \<and> filterArticlesByAuthor u dp st name limit = take ?n full
            \<and> (\<forall>a\<in>set (take ?n full). \<forall>b\<in>set (drop ?n full). ?R a b)"
    using fa sorted_wrt_take_drop [OF sa] by blast
  have author_sorted: "sorted_wrt ?R (filterArticlesByAuthor u dp st name limit)"
    using fa(2) sa by (simp add: sorted_wrt_take)
  have range: "\<exists>full. newestFirstStable dp full
                  (filter (withinBounds dp startDate endDate) (magazineArticles st))
            \<and> filterArticlesByDateRange dp st startDate endDate limit = Inr (take ?n full)
            \<and> (\<forall>a\<in>set (take ?n full). \<forall>b\<in>set (drop ?n full). ?R a b)"
    if ok: "\<not> rejected dp startDate \<and> \<not> rejected dp endDate"
  proof -
    obtain fr where fr: "newestFirstStable dp fr
          (filter (withinBounds dp startDate endDate) (magazineArticles st))"
        "filterArticlesByDateRange dp st startDate endDate limit = Inr (take ?n fr)"
      using filterArticlesByDateRange_sorted [OF assms, of startDate endDate] ok by blast
    then have "sorted_wrt ?R fr"
      by (simp add: newestFirstStable_def)
    then show ?thesis
      using fr sorted_wrt_take_drop by blast
  qed
  have range_sorted: "sorted_wrt ?R res"
    if r: "filterArticlesByDateRange dp st startDate endDate limit = Inr res" for res
  proof -
    from r have ok: "\<not> rejected dp startDate \<and> \<not> rejected dp endDate"
      by (auto simp: filterArticlesByDateRange_cases split: if_splits)
    then obtain fr where "newestFirstStable dp fr
          (filter (withinBounds dp startDate endDate) (magazineArticles st))"
        "filterArticlesByDateRange dp st startDate endDate limit = Inr (take ?n fr)"
      using range by blast
    with r show ?thesis
      by (auto simp: newestFirstStable_def sorted_wrt_take)
  qed
  show ?thesis
    using author author_sorted range range_sorted by blast
qed

lemma datedIndex_wellFormed: "\<forall>a\<in>set (magazineArticles datedIndex). wellFormed asciiOnly isoDateParse a"
  by (simp add: datedIndex_def) code_simp

lemma datedIndex_by_author:
  "filterArticlesByAuthor asciiOnly isoDateParse datedIndex ''ada'' (Some 10)
     = [exampleArticleD, exampleArticleC]"
  by code_simp

lemma datedIndex_recent:
  "filterArticlesByDateRange isoDateParse datedIndex None None (Some 3)
     = Inr [exampleArticleD, exampleArticleC, exampleArticleB]"
  by code_simp

theorem date_filters_newest_first_witness:
  "wellFormed asciiOnly isoDateParse exampleArticleA \<and> wellFormed asciiOnly isoDateParse exampleArticleC
   \<and> wellFormed asciiOnly isoDateParse exampleArticleB \<and> wellFormed asciiOnly isoDateParse exampleArticleD
   \<and> \<not> rejected isoDateParse None
   \<and> filterArticlesByAuthor asciiOnly isoDateParse datedIndex ''ada'' (Some 10)
       = [exampleArticleD, exampleArticleC]
   \<and> filterArticlesByDateRange isoDateParse datedIndex None None (Some 3)
       = Inr [exampleArticleD, exampleArticleC, exampleArticleB]
   \<and> sorted_wrt (\<lambda>a b. numGe (pubTime isoDateParse a) (pubTime isoDateParse b))
       [exampleArticleD, exampleArticleC, exampleArticleB]"
  using date_filters_newest_first [OF datedIndex_wellFormed, of "''ada''" "Some 3" None None]
    datedIndex_wellFormed datedIndex_by_author datedIndex_recent
  by (simp add: rejected_def datedIndex_def)

text \<open>
  C3. \<open>filterArticlesByDateRange\<close> raises its validation error if and only if a start or
  end bound is given, is not the empty string and does not parse; the start bound is
  checked first. A bound that is omitted or is the empty string leaves that side unbounded,
  and a bound that parses is applied inclusively.
\<close>

theorem date_range_validation:
  "(isl (filterArticlesByDateRange dp st startDate endDate limit)
      \<longleftrightarrow> rejected dp startDate \<or> rejected dp endDate)
   \<and> (rejected dp startDate \<longleftrightarrow> (\<exists>b. startDate = Some b \<and> b \<noteq> [] \<and> dp b = None))
   \<and> (rejected dp endDate \<longleftrightarrow> (\<exists>b. endDate = Some b \<and> b \<noteq> [] \<and> dp b = None))
   \<and> (startDate = Some b \<and> rejected dp startDate
        \<longrightarrow> filterArticlesByDateRange dp st startDate endDate limit = Inl (InvalidStartDate b))
   \<and> (endDate = Some b \<and> \<not> rejected dp startDate \<and> rejected dp endDate
        \<longrightarrow> filterArticlesByDateRange dp st startDate endDate limit = Inl (InvalidEndDate b))
   \<and> (\<not> rejected dp startDate \<and> \<not> rejected dp endDate
        \<longrightarrow> filterArticlesByDateRange dp st startDate endDate limit
            = Inr (take (nat (clampLimit (defaultLimit limit)))
                     (arraySort (newestFirst dp)
                        (filter (withinBounds dp startDate endDate) (magazineArticles st)))))
   \<and> (withinBounds dp startDate endDate article \<longleftrightarrow>
         (\<forall>b. startDate = Some b \<and> b \<noteq> [] \<longrightarrow>
            (\<exists>t tb. pubTime dp article = Some t \<and> dp b = Some tb \<and> tb \<le> t))
         \<and> (\<forall>b. endDate = Some b \<and> b \<noteq> [] \<longrightarrow>
            (\<exists>t tb. pubTime dp article = Some t \<and> dp b = Some tb \<and> t \<le> tb)))"
proof -
  have ge: "numGe x y \<longleftrightarrow> (\<exists>t tb. x = Some t \<and> y = Some tb \<and> tb \<le> t)" for x y
    by (cases x; cases y) auto
  have le: "numLe x y \<longleftrightarrow> (\<exists>t tb. x = Some t \<and> y = Some tb \<and> t \<le> tb)" for x y
    by (cases x; cases y) auto
  have bounds: "withinBounds dp startDate endDate article \<longleftrightarrow>
         (\<forall>b. startDate = Some b \<and> b \<noteq> [] \<longrightarrow>
            (\<exists>t tb. pubTime dp article = Some t \<and> dp b = Some tb \<and> tb \<le> t))
         \<and> (\<forall>b. endDate = Some b \<and> b \<noteq> [] \<longrightarrow>
            (\<exists>t tb. pubTime dp article = Some t \<and> dp b = Some tb \<and> t \<le> tb))"
    by (cases startDate; cases endDate) (auto simp: withinBounds_def ge le)
  have rs: "rejected dp startDate \<longleftrightarrow> (\<exists>b. startDate = Some b \<and> b \<noteq> [] \<and> dp b = None)"
    by (cases startDate) (simp_all add: rejected_def)
  have re: "rejected dp endDate \<longleftrightarrow> (\<exists>b. endDate = Some b \<and> b \<noteq> [] \<and> dp b = None)"
    by (cases endDate) (simp_all add: rejected_def)
  show ?thesis
    using bounds rs re
    by (simp add: filterArticlesByDateRange_cases) auto
qed

theorem date_range_validation_witness:
  "rejected isoDateParse (Some ''not-a-date'')
   \<and> filterArticlesByDateRange isoDateParse exampleIndex (Some ''not-a-date'') None (Some 10)
       = Inl (InvalidStartDate ''not-a-date'')
   \<and> \<not> rejected isoDateParse None \<and> rejected isoDateParse (Some ''2024-13-01'')
   \<and> filterArticlesByDateRange isoDateParse exampleIndex None (Some ''2024-13-01'') (Some 10)
       = Inl (InvalidEndDate ''2024-13-01'')
   \<and> \<not> rejected isoDateParse (Some ''2024-01-15'')
   \<and> filterArticlesByDateRange isoDateParse exampleIndex None (Some ''2024-01-15'') (Some 10)
       = Inr [exampleArticleA]"
proof -
  have r: "rejected isoDateParse (Some ''not-a-date'')" "\<not> rejected isoDateParse None"
    "rejected isoDateParse (Some ''2024-13-01'')" "\<not> rejected isoDateParse (Some ''2024-01-15'')"
    by code_simp+
  have v: "take (nat (clampLimit (defaultLimit (Some 10))))
             (arraySort (newestFirst isoDateParse)
                (filter (withinBounds isoDateParse None (Some ''2024-01-15''))
                   (magazineArticles exampleIndex))) = [exampleArticleA]"
    by code_simp
  show ?thesis
    using r v
      date_range_validation [of isoDateParse exampleIndex "Some ''not-a-date''" None "Some 10"
        "''not-a-date''"]
      date_range_validation [of isoDateParse exampleIndex None "Some ''2024-13-01''" "Some 10"
        "''2024-13-01''"]
      date_range_validation [of isoDateParse exampleIndex None "Some ''2024-01-15''" "Some 10"]
    by simp
qed

text \<open>
  The empty string does not parse, yet as a start bound it raises nothing: the side is left
  unbounded and both example articles are returned.
\<close>

theorem empty_bound_counterexample:
  "isoDateParse [] = None
   \<and> filterArticlesByDateRange isoDateParse exampleIndex (Some []) None (Some 10)
       = Inr [exampleArticleB, exampleArticleA]"
  by code_simp

section \<open>Escaping of inlined assets\<close>

lemma asciiLower_lt: "asciiLower c = CHR ''<'' \<longleftrightarrow> c = CHR ''<''"
  by (auto simp: asciiLower_def split: option.splits if_splits)

lemma lt_asciiLower: "CHR ''<'' = asciiLower c \<longleftrightarrow> c = CHR ''<''"
  using asciiLower_lt [of c] by auto

lemma asciiLowerCase_lt: "CHR ''<'' \<in> set (asciiLowerCase s) \<longleftrightarrow> CHR ''<'' \<in> set s"
  by (auto simp: asciiLowerCase_def image_iff lt_asciiLower)

lemma replace_copies:
  assumes "pat \<noteq> []" and "hd rep = CHR ''<''" and "rep \<noteq> []"
  shows "CHR ''<'' \<notin> set (take k (replaceAllIgnoreCase pat rep s))
           \<Longrightarrow> take k (replaceAllIgnoreCase pat rep s) = take k s"
proof (induction s arbitrary: k)
  case Nil
  then show ?case using assms by simp
next
  case (Cons c cs)
  show ?case
  proof (cases k)
    case 0
    then show ?thesis by simp
  next
    case (Suc k')
    show ?thesis
    proof (cases "prefix pat (asciiLowerCase (c # cs))")
      case True
      obtain r where "rep = CHR ''<'' # r"
        using assms(2,3) by (cases rep) auto
      with True Cons.prems Suc assms(1) show ?thesis by simp
    next
      case False
      with Cons Suc assms(1) show ?thesis by simp
    qed
  qed
qed

lemma prefix_map_take:
  assumes "prefix p (asciiLowerCase ys)"
  shows "asciiLowerCase (take (length p) ys) = p"
proof -
  from assms obtain z where "asciiLowerCase ys = p @ z"
    by (auto simp: prefix_def)
  then have "take (length p) (asciiLowerCase ys) = p" by simp
  then show ?thesis
    by (simp add: asciiLowerCase_def take_map)
qed

lemma replace_no_match:
  assumes pat: "pat = CHR ''<'' # p" and p: "CHR ''<'' \<notin> set p"
    and rep: "rep = CHR ''<'' # r" and r: "CHR ''<'' \<notin> set r"
    and differ: "\<And>x. \<not> prefix p (asciiLowerCase (r @ x))"
  shows "suffix t (replaceAllIgnoreCase pat rep s) \<Longrightarrow> \<not> prefix pat (asciiLowerCase t)"
proof (induction "length s" arbitrary: s t rule: less_induct)
  case less
  show ?case
  proof (cases s)
    case Nil
    with less.prems show ?thesis
      by (simp add: pat asciiLowerCase_def)
  next
    case (Cons c cs)
    show ?thesis
    proof (cases "prefix pat (asciiLowerCase (c # cs))")
      case True
      define rest where "rest = drop (length p) cs"
      have out: "replaceAllIgnoreCase pat rep s = rep @ replaceAllIgnoreCase pat rep rest"
        using True Cons by (simp add: pat rest_def)
      have shorter: "length rest < length s"
        by (simp add: rest_def Cons)
      from less.prems out have "suffix t (rep @ replaceAllIgnoreCase pat rep rest)"
        by simp
      then have "suffix t (replaceAllIgnoreCase pat rep rest)
          \<or> (\<exists>t'. t = t' @ replaceAllIgnoreCase pat rep rest \<and> suffix t' (CHR ''<'' # r))"
        unfolding suffix_append rep .
      then have "suffix t (replaceAllIgnoreCase pat rep rest)
          \<or> (\<exists>t'. t = t' @ replaceAllIgnoreCase pat rep rest \<and> (t' = CHR ''<'' # r \<or> suffix t' r))"
        unfolding suffix_Cons .
      then consider
          (inner) "suffix t (replaceAllIgnoreCase pat rep rest)"
        | (whole) "t = rep @ replaceAllIgnoreCase pat rep rest"
        | (part) t' where "t = t' @ replaceAllIgnoreCase pat rep rest" "suffix t' r" "t' \<noteq> []"
        unfolding rep by (cases "t = replaceAllIgnoreCase (CHR ''<'' # p) (CHR ''<'' # r) rest") (use pat in auto)
      then show ?thesis
      proof cases
        case inner
        then show ?thesis
          by (rule less.hyps [OF shorter])
      next
        case whole
        then show ?thesis
          using differ [of "replaceAllIgnoreCase pat rep rest"]
          by (simp add: pat rep asciiLowerCase_def)
      next
        case part
        then obtain h u where t': "t' = h # u"
          by (cases t') auto
        with part have "h \<in> set r"
          using set_mono_suffix [of t' r] by auto
        with r have "h \<noteq> CHR ''<''" by auto
        then show ?thesis
          using part(1) by (simp add: t' pat asciiLowerCase_def lt_asciiLower)
      qed
    next
      case False
      have out: "replaceAllIgnoreCase pat rep s = c # replaceAllIgnoreCase pat rep cs"
        using False Cons by (simp add: pat)
      from less.prems out have "suffix t (c # replaceAllIgnoreCase pat rep cs)"
        by simp
      then consider
          (inner) "suffix t (replaceAllIgnoreCase pat rep cs)"
        | (whole) "t = c # replaceAllIgnoreCase pat rep cs"
        unfolding suffix_Cons by blast
      then show ?thesis
      proof cases
        case inner
        then show ?thesis
          by (rule less.hyps [rotated]) (simp add: Cons)
      next
        case whole
        show ?thesis
        proof
          assume "prefix pat (asciiLowerCase t)"
          define lo where "lo = asciiLowerCase (replaceAllIgnoreCase pat rep cs)"
          from \<open>prefix pat (asciiLowerCase t)\<close> whole have "prefix pat (asciiLower c # lo)"
            by (simp add: asciiLowerCase_def lo_def)
          then have "asciiLower c = CHR ''<''" and "prefix p lo"
            unfolding pat by auto
          then have c: "asciiLower c = CHR ''<''"
            and pre: "prefix p (asciiLowerCase (replaceAllIgnoreCase pat rep cs))"
            unfolding lo_def .
          have low: "asciiLowerCase (take (length p) (replaceAllIgnoreCase pat rep cs)) = p"
            by (rule prefix_map_take [OF pre])
          then have "CHR ''<'' \<notin> set (take (length p) (replaceAllIgnoreCase pat rep cs))"
            using p asciiLowerCase_lt by metis
          then have "take (length p) (replaceAllIgnoreCase pat rep cs) = take (length p) cs"
            by (rule replace_copies [rotated 3]) (simp_all add: pat rep)
          with low have "asciiLowerCase (take (length p) cs) = p" by simp
          then have "prefix p (asciiLowerCase cs)"
            by (metis take_is_prefix take_map asciiLowerCase_def)
          with c have "prefix pat (asciiLowerCase (c # cs))"
            by (simp add: pat asciiLowerCase_def)
          with False show False ..
        qed
      qed
    qed
  qed
qed

lemma replace_no_occurrence:
  assumes pat: "pat = CHR ''<'' # p" and p: "CHR ''<'' \<notin> set p"
    and rep: "rep = CHR ''<'' # r" and r: "CHR ''<'' \<notin> set r"
    and differ: "\<And>x. \<not> prefix p (asciiLowerCase (r @ x))"
  shows "\<not> sublist pat (asciiLowerCase (replaceAllIgnoreCase pat rep s))"
proof
  assume "sublist pat (asciiLowerCase (replaceAllIgnoreCase pat rep s))"
  then obtain ps ss where "asciiLowerCase (replaceAllIgnoreCase pat rep s) = ps @ pat @ ss"
    by (auto simp: sublist_def)
  then obtain a b where ab: "replaceAllIgnoreCase pat rep s = a @ b"
    and b: "pat @ ss = asciiLowerCase b"
    unfolding asciiLowerCase_def map_eq_append_conv by blast
  then have "suffix b (replaceAllIgnoreCase pat rep s)" "prefix pat (asciiLowerCase b)"
    by (auto simp: suffix_def prefix_def dest: sym)
  then show False
    using replace_no_match [OF pat p rep r differ] by blast
qed

lemma replace_escapedFrom:
  assumes "pat \<noteq> []"
  shows "escapedFrom pat rep s (replaceAllIgnoreCase pat rep s)"
proof (induction "length s" arbitrary: s rule: less_induct)
  case less
  show ?case
  proof (cases s)
    case Nil
    with assms show ?thesis
      by (simp add: escaped_end)
  next
    case (Cons c cs)
    show ?thesis
    proof (cases "prefix pat (asciiLowerCase (c # cs))")
      case True
      define m where "m = take (length pat) s"
      define rest where "rest = drop (length pat) s"
      have split: "s = m @ rest"
        by (simp add: m_def rest_def)
      have "asciiLowerCase m = pat"
        unfolding m_def Cons by (rule prefix_map_take [OF True])
      moreover have "length rest < length s"
        using assms by (simp add: rest_def Cons)
      then have "escapedFrom pat rep rest (replaceAllIgnoreCase pat rep rest)"
        by (rule less.hyps)
      ultimately have "escapedFrom pat rep (m @ rest) (rep @ replaceAllIgnoreCase pat rep rest)"
        by (rule escaped_match)
      moreover have "rest = drop (length pat - 1) cs"
        using assms by (cases pat) (simp_all add: rest_def Cons)
      then have "replaceAllIgnoreCase pat rep s = rep @ replaceAllIgnoreCase pat rep rest"
        using True assms by (simp add: Cons)
      ultimately show ?thesis
        using split by simp
    next
      case False
      have "escapedFrom pat rep cs (replaceAllIgnoreCase pat rep cs)"
        by (rule less.hyps) (simp add: Cons)
      then have "escapedFrom pat rep (c # cs) (c # replaceAllIgnoreCase pat rep cs)"
        by (rule escaped_keep)
      then show ?thesis
        using False assms by (simp add: Cons)
    qed
  qed
qed

text \<open>
  C9. For every source string, the escaped script content is the source in which
  occurrences of \<open></script\<close>, in any mixture of upper and lower case, are replaced by
  \<open><\/script\<close> and every other character is kept in its place, and it contains no
  occurrence of \<open></script\<close> in any mixture of cases; the escaped style content is the
  same for \<open></style\<close>. Neither the substring test of the model nor the substring relation
  finds the closing tag in the escaped content with its ASCII letters in lower case.
\<close>

theorem escaped_content_has_no_closing_tag:
  "escapedFrom ''</script'' (CHR ''<'' # CHR 0x5C # ''/script'') source
     (escapeForInlineScript source)
   \<and> escapedFrom ''</style'' (CHR ''<'' # CHR 0x5C # ''/style'') source
       (escapeForInlineStyle source)
   \<and> \<not> sublist ''</script'' (asciiLowerCase (escapeForInlineScript source))
   \<and> \<not> sublist ''</style'' (asciiLowerCase (escapeForInlineStyle source))
   \<and> \<not> str_includes (asciiLowerCase (escapeForInlineScript source)) ''</script''
   \<and> \<not> str_includes (asciiLowerCase (escapeForInlineStyle source)) ''</style''"
proof -
  have "\<not> sublist ''</script'' (asciiLowerCase (escapeForInlineScript source))"
    unfolding escapeForInlineScript_def
    by (rule replace_no_occurrence [where p = "''/script''" and r = "CHR 0x5C # ''/script''"])
       (simp_all add: asciiLowerCase_def asciiLower_def)
  moreover have "\<not> sublist ''</style'' (asciiLowerCase (escapeForInlineStyle source))"
    unfolding escapeForInlineStyle_def
    by (rule replace_no_occurrence [where p = "''/style''" and r = "CHR 0x5C # ''/style''"])
       (simp_all add: asciiLowerCase_def asciiLower_def)
  moreover have "escapedFrom ''</script'' (CHR ''<'' # CHR 0x5C # ''/script'') source
     (escapeForInlineScript source)"
    unfolding escapeForInlineScript_def by (rule replace_escapedFrom) simp
  moreover have "escapedFrom ''</style'' (CHR ''<'' # CHR 0x5C # ''/style'') source
       (escapeForInlineStyle source)"
    unfolding escapeForInlineStyle_def by (rule replace_escapedFrom) simp
  ultimately show ?thesis
    by (simp add: str_includes_sublist)
qed

lemma escape_examples:
  "escapeForInlineScript ''a </ScRipt> b </script''
     = ''a <'' @ [CHR 0x5C] @ ''/script> b <'' @ [CHR 0x5C] @ ''/script''"
  "escapeForInlineStyle ''p{} </STYLE></style>''
     = ''p{} <'' @ [CHR 0x5C] @ ''/style><'' @ [CHR 0x5C] @ ''/style>''"
  "escapeForInlineScript ''if (a < b) x = 1'' = ''if (a < b) x = 1''"
  by code_simp+

theorem escaped_content_has_no_closing_tag_witness:
  "\<not> sublist ''</script'' (asciiLowerCase (escapeForInlineScript ''a </ScRipt> b </script''))
   \<and> \<not> sublist ''</style'' (asciiLowerCase (escapeForInlineStyle ''p{} </STYLE></style>''))
   \<and> escapeForInlineScript ''a </ScRipt> b </script''
       = ''a <'' @ [CHR 0x5C] @ ''/script> b <'' @ [CHR 0x5C] @ ''/script''
   \<and> escapeForInlineStyle ''p{} </STYLE></style>''
       = ''p{} <'' @ [CHR 0x5C] @ ''/style><'' @ [CHR 0x5C] @ ''/style>''
   \<and> escapeForInlineScript ''if (a < b) x = 1'' = ''if (a < b) x = 1''"
  using escaped_content_has_no_closing_tag [of "''a </ScRipt> b </script''"]
    escaped_content_has_no_closing_tag [of "''p{} </STYLE></style>''"]
    escape_examples
  by blast

section \<open>Widget resolution\<close>

lemma sorted_le_last: "sorted xs \<Longrightarrow> x \<in> set xs \<Longrightarrow> x \<le> last xs"
  by (induction xs) auto

lemma resolveWidgetAsset_hashed:
  assumes "readdirSync fs dir = Some files"
    and "filter (hashedCandidate name ext) files \<noteq> []"
  shows "\<exists>h. resolveWidgetAsset fs name ext dir = Inr h \<and> h \<in> set files
           \<and> hashedCandidate name ext h
           \<and> (\<forall>f\<in>set files. hashedCandidate name ext f \<longrightarrow> f \<le> h)"
proof -
  let ?c = "sort (filter (hashedCandidate name ext) files)"
  have ne: "?c \<noteq> []"
    using assms(2) by (metis length_0_conv length_sort)
  then have mem: "last ?c \<in> set (filter (hashedCandidate name ext) files)"
    using last_in_set [OF ne] by simp
  then have cand: "hashedCandidate name ext (last ?c)" and inl: "last ?c \<in> set files"
    by simp_all
  then have "last ?c \<noteq> []"
    by (auto simp: hashedCandidate_def)
  then have r: "resolveWidgetAsset fs name ext dir = Inr (last ?c)"
    using assms(1) ne
    by (simp add: resolveWidgetAsset_def hashedCandidate_def [abs_def] Let_def)
  have "\<forall>f\<in>set ?c. f \<le> last ?c"
    using sorted_le_last [of ?c] by simp
  then have "\<forall>f\<in>set files. hashedCandidate name ext f \<longrightarrow> f \<le> last ?c"
    by simp
  with r cand inl show ?thesis by blast
qed

lemma resolveWidgetAsset_unhashed:
  assumes "readdirSync fs dir = Some files"
    and "filter (hashedCandidate name ext) files = []"
  shows "resolveWidgetAsset fs name ext dir
           = (if name @ ext \<in> set files then Inr (name @ ext) else Inl (AssetMissing ext name))"
  using assms
  by (simp add: resolveWidgetAsset_def hashedCandidate_def [abs_def] Let_def)

lemma buildWidgetHtml_prebuilt:
  assumes "existsSync fs (pathJoin fs (distDir fs) (name @ ''.html''))"
    and "readFileSync fs (pathJoin fs (distDir fs) (name @ ''.html'')) = Some doc"
  shows "buildWidgetHtml fs name rootId dir = Inr doc"
  using assms by (simp add: buildWidgetHtml_def buildWidgetHtmlTry_def Let_def)

lemma buildWidgetHtml_inlined:
  assumes "\<not> existsSync fs (pathJoin fs (distDir fs) (name @ ''.html''))"
    and "existsSync fs dir"
    and "resolveWidgetAsset fs name ''.js'' dir = Inr jsAsset"
    and "resolveWidgetAsset fs name ''.css'' dir = Inr cssAsset"
    and "existsSync fs (pathJoin fs dir jsAsset)" and "existsSync fs (pathJoin fs dir cssAsset)"
    and "readFileSync fs (pathJoin fs dir jsAsset) = Some jsContents"
    and "readFileSync fs (pathJoin fs dir cssAsset) = Some cssContents"
  shows "buildWidgetHtml fs name rootId dir
           = Inr (inlineDocument rootId (escapeForInlineStyle cssContents)
                    (escapeForInlineScript jsContents))"
  using assms by (simp add: buildWidgetHtml_def buildWidgetHtmlTry_def Let_def)

text \<open>
  C4. Widget asset resolution follows this precedence. (1) If the prebuilt document exists
  (and can be read) at \<open>distDir/name.html\<close>, \<open>buildWidgetHtml\<close> returns it verbatim.
  (2) Otherwise each asset is resolved in the listing of the asset directory: among the
  files that start with \<open>name-\<close> and end with the extension, the one that is last in the
  lexicographic order of the file names is selected. (3) If no file has that form, the
  un-hashed \<open>name.ext\<close> is used if the listing has it, and the resolution fails otherwise.
  The two resolved assets, when they exist and can be read, are inlined into the document.
\<close>

theorem asset_resolution_precedence:
  "(existsSync fs (pathJoin fs (distDir fs) (name @ ''.html''))
      \<and> readFileSync fs (pathJoin fs (distDir fs) (name @ ''.html'')) = Some doc
      \<longrightarrow> buildWidgetHtml fs name rootId dir = Inr doc)
   \<and> (readdirSync fs dir = Some files \<and> filter (hashedCandidate name ext) files \<noteq> []
      \<longrightarrow> (\<exists>h. resolveWidgetAsset fs name ext dir = Inr h \<and> h \<in> set files
             \<and> hashedCandidate name ext h
             \<and> (\<forall>f\<in>set files. hashedCandidate name ext f \<longrightarrow> f \<le> h)))
   \<and> (readdirSync fs dir = Some files \<and> filter (hashedCandidate name ext) files = []
        \<and> name @ ext \<in> set files
      \<longrightarrow> resolveWidgetAsset fs name ext dir = Inr (name @ ext))
   \<and> (readdirSync fs dir = Some files \<and> filter (hashedCandidate name ext) files = []
        \<and> name @ ext \<notin> set files
      \<longrightarrow> resolveWidgetAsset fs name ext dir = Inl (AssetMissing ext name))
   \<and> (\<not> existsSync fs (pathJoin fs (distDir fs) (name @ ''.html'')) \<and> existsSync fs dir
        \<and> resolveWidgetAsset fs name ''.js'' dir = Inr jsAsset
        \<and> resolveWidgetAsset fs name ''.css'' dir = Inr cssAsset
        \<and> existsSync fs (pathJoin fs dir jsAsset) \<and> existsSync fs (pathJoin fs dir cssAsset)
        \<and> readFileSync fs (pathJoin fs dir jsAsset) = Some jsContents
        \<and> readFileSync fs (pathJoin fs dir cssAsset) = Some cssContents
      \<longrightarrow> buildWidgetHtml fs name rootId dir
            = Inr (inlineDocument rootId (escapeForInlineStyle cssContents)
                     (escapeForInlineScript jsContents)))"
  using buildWidgetHtml_prebuilt [of fs name doc rootId dir]
    resolveWidgetAsset_hashed [of fs dir files name ext]
    resolveWidgetAsset_unhashed [of fs dir files name ext]
    buildWidgetHtml_inlined [of fs name dir jsAsset cssAsset jsContents cssContents rootId]
  by simp

lemma assetsFs_listing:
  "readdirSync assetsFs ''assets''
     = Some [''article-list-b2.js'', ''article-list-a1.js'', ''article-list.css'',
             ''article-preview.js'']"
  by (simp add: assetsFs_def)

lemma assetsFs_candidates:
  "filter (hashedCandidate ''article-list'' ''.js'')
     [''article-list-b2.js'', ''article-list-a1.js'', ''article-list.css'', ''article-preview.js'']
     = [''article-list-b2.js'', ''article-list-a1.js'']"
  "filter (hashedCandidate ''article-list'' ''.css'')
     [''article-list-b2.js'', ''article-list-a1.js'', ''article-list.css'', ''article-preview.js'']
     = []"
  by code_simp+

theorem asset_resolution_precedence_witness:
  "existsSync assetsFs (pathJoin assetsFs (distDir assetsFs) (''article-preview'' @ ''.html''))
   \<and> buildWidgetHtml assetsFs ''article-preview'' ''article-preview-root'' ''assets''
       = Inr ''<html>prebuilt</html>''
   \<and> resolveWidgetAsset assetsFs ''article-list'' ''.js'' ''assets'' = Inr ''article-list-b2.js''
   \<and> resolveWidgetAsset assetsFs ''article-list'' ''.css'' ''assets'' = Inr ''article-list.css''
   \<and> resolveWidgetAsset assetsFs ''article-preview'' ''.css'' ''assets''
       = Inl (AssetMissing ''.css'' ''article-preview'')
   \<and> buildWidgetHtml assetsFs ''article-list'' ''article-list-root'' ''assets''
       = Inr (inlineDocument ''article-list-root'' (escapeForInlineStyle ''p{}'')
                (escapeForInlineScript ''x = 1 </SCRIPT> 2''))"
proof -
  have pre: "existsSync assetsFs (pathJoin assetsFs (distDir assetsFs) (''article-preview'' @ ''.html''))"
    "readFileSync assetsFs (pathJoin assetsFs (distDir assetsFs) (''article-preview'' @ ''.html''))
       = Some ''<html>prebuilt</html>''"
    by (simp_all add: assetsFs_def)
  have prebuilt: "buildWidgetHtml assetsFs ''article-preview'' ''article-preview-root'' ''assets''
       = Inr ''<html>prebuilt</html>''"
    using asset_resolution_precedence [of assetsFs "''article-preview''"
        "''<html>prebuilt</html>''" "''article-preview-root''" "''assets''"] pre
    by blast
  have "\<exists>h. resolveWidgetAsset assetsFs ''article-list'' ''.js'' ''assets'' = Inr h
          \<and> h \<in> set [''article-list-b2.js'', ''article-list-a1.js'', ''article-list.css'',
                       ''article-preview.js'']
          \<and> hashedCandidate ''article-list'' ''.js'' h
          \<and> (\<forall>f\<in>set [''article-list-b2.js'', ''article-list-a1.js'', ''article-list.css'',
                         ''article-preview.js''].
                hashedCandidate ''article-list'' ''.js'' f \<longrightarrow> f \<le> h)"
    using asset_resolution_precedence [of assetsFs "''article-list''" _ _ "''assets''"
        "[''article-list-b2.js'', ''article-list-a1.js'', ''article-list.css'',
          ''article-preview.js'']" "''.js''"]
      assetsFs_listing assetsFs_candidates(1)
    by simp
  then obtain h where h: "resolveWidgetAsset assetsFs ''article-list'' ''.js'' ''assets'' = Inr h"
    and mem: "h \<in> set [''article-list-b2.js'', ''article-list-a1.js'', ''article-list.css'',
                        ''article-preview.js'']"
    and top: "hashedCandidate ''article-list'' ''.js'' ''article-list-b2.js''
                \<longrightarrow> ''article-list-b2.js'' \<le> h"
    and cand: "hashedCandidate ''article-list'' ''.js'' h"
    by auto
  have c1: "hashedCandidate ''article-list'' ''.js'' ''article-list-b2.js''"
    and c2: "\<not> hashedCandidate ''article-list'' ''.js'' ''article-list.css''"
    and c3: "\<not> hashedCandidate ''article-list'' ''.js'' ''article-preview.js''"
    and c4: "\<not> ''article-list-b2.js'' \<le> ''article-list-a1.js''"
    by code_simp+
  from mem cand top c1 c2 c3 c4 have "h = ''article-list-b2.js''"
    by auto
  with h have js: "resolveWidgetAsset assetsFs ''article-list'' ''.js'' ''assets''
      = Inr ''article-list-b2.js''"
    by simp
  have "''article-list'' @ ''.css'' \<in> set [''article-list-b2.js'', ''article-list-a1.js'',
          ''article-list.css'', ''article-preview.js'']"
    by simp
  then have css: "resolveWidgetAsset assetsFs ''article-list'' ''.css'' ''assets''
      = Inr ''article-list.css''"
    using asset_resolution_precedence [of assetsFs "''article-list''" _ _ "''assets''"
        "[''article-list-b2.js'', ''article-list-a1.js'', ''article-list.css'',
          ''article-preview.js'']" "''.css''"]
      assetsFs_listing assetsFs_candidates(2)
    by simp
  have "filter (hashedCandidate ''article-preview'' ''.css'')
     [''article-list-b2.js'', ''article-list-a1.js'', ''article-list.css'', ''article-preview.js'']
     = []"
    "''article-preview'' @ ''.css'' \<notin> set [''article-list-b2.js'', ''article-list-a1.js'',
          ''article-list.css'', ''article-preview.js'']"
    by code_simp+
  then have missing: "resolveWidgetAsset assetsFs ''article-preview'' ''.css'' ''assets''
       = Inl (AssetMissing ''.css'' ''article-preview'')"
    using asset_resolution_precedence [of assetsFs "''article-preview''" _ _ "''assets''"
        "[''article-list-b2.js'', ''article-list-a1.js'', ''article-list.css'',
          ''article-preview.js'']" "''.css''"]
      assetsFs_listing
    by simp
  have files: "\<not> existsSync assetsFs (pathJoin assetsFs (distDir assetsFs) (''article-list'' @ ''.html''))"
    "existsSync assetsFs ''assets''"
    "existsSync assetsFs (pathJoin assetsFs ''assets'' ''article-list-b2.js'')"
    "existsSync assetsFs (pathJoin assetsFs ''assets'' ''article-list.css'')"
    "readFileSync assetsFs (pathJoin assetsFs ''assets'' ''article-list-b2.js'')
       = Some ''x = 1 </SCRIPT> 2''"
    "readFileSync assetsFs (pathJoin assetsFs ''assets'' ''article-list.css'') = Some ''p{}''"
    by (simp_all add: assetsFs_def)
  have inlined: "buildWidgetHtml assetsFs ''article-list'' ''article-list-root'' ''assets''
       = Inr (inlineDocument ''article-list-root'' (escapeForInlineStyle ''p{}'')
                (escapeForInlineScript ''x = 1 </SCRIPT> 2''))"
    using asset_resolution_precedence [of assetsFs "''article-list''" _ "''article-list-root''"
        "''assets''" _ _ "''article-list-b2.js''" "''article-list.css''" "''x = 1 </SCRIPT> 2''"
        "''p{}''"] js css files
    by blast
  show ?thesis
    using pre(1) prebuilt js css missing inlined by blast
qed

section \<open>Degradation when a widget is unavailable\<close>

lemma buildWidgetHtml_caught:
  assumes "buildWidgetHtmlTry fs name rootId dir = Inl err"
  shows "buildWidgetHtml fs name rootId dir
           = (if existsSync fs (pathJoin fs dir ''fallback-widget.html'')
              then (case readFileSync fs (pathJoin fs dir ''fallback-widget.html'') of
                      None \<Rightarrow> Inl (FsFailure (pathJoin fs dir ''fallback-widget.html''))
                    | Some doc \<Rightarrow> Inr doc)
              else Inr ''<div>Widget unavailable</div>'')"
  using assms by (simp add: buildWidgetHtml_def Let_def)

lemma buildWidgetHtml_raises:
  "isl (buildWidgetHtml fs name rootId dir)
     \<longleftrightarrow> isl (buildWidgetHtmlTry fs name rootId dir)
         \<and> existsSync fs (pathJoin fs dir ''fallback-widget.html'')
         \<and> readFileSync fs (pathJoin fs dir ''fallback-widget.html'') = None"
  by (cases "buildWidgetHtmlTry fs name rootId dir")
     (auto simp: buildWidgetHtml_def Let_def split: option.splits)

lemma buildWidgetHtmlTry_no_directory:
  assumes "\<not> existsSync fs (pathJoin fs (distDir fs) (name @ ''.html''))"
    and "\<not> existsSync fs dir"
  shows "buildWidgetHtmlTry fs name rootId dir = Inl (AssetsDirMissing dir)"
  using assms by (simp add: buildWidgetHtmlTry_def Let_def)

lemma initializeArticleListWidget_total:
  "initializeArticleListWidget fs dir
     = (case buildWidgetHtml fs ''article-list'' ''article-list-root'' dir of
          Inl e \<Rightarrow> Inr None
        | Inr doc \<Rightarrow>
            Inr (Some \<lparr>id_w = ''unic-article-list'', title_w = ''Unic magazine article list'',
                       templateUri = ''ui://widget/article-list.html'',
                       invoking = ''Curating magazine stories'', invoked = ''Article list ready'',
                       html = doc\<rparr>))"
  by (simp add: initializeArticleListWidget_def Let_def split: sum.splits)

lemma initializeArticlePreviewWidget_total:
  "initializeArticlePreviewWidget fs dir
     = (case buildWidgetHtml fs ''article-preview'' ''article-preview-root'' dir of
          Inl e \<Rightarrow> Inr None
        | Inr doc \<Rightarrow>
            Inr (Some \<lparr>id_w = ''unic-article-preview'',
                       title_w = ''Unic magazine article preview'',
                       templateUri = ''ui://widget/article-preview.html'',
                       invoking = ''Loading article preview'', invoked = ''Article preview ready'',
                       html = doc\<rparr>))"
  by (simp add: initializeArticlePreviewWidget_def Let_def split: sum.splits)

lemma searchArticlesTool_text_only:
  "structuredContent (searchArticlesTool u fmt None st q limit) = None
   \<and> meta (searchArticlesTool u fmt None st q limit) = None
   \<and> length (content (searchArticlesTool u fmt None st q limit)) = 1"
  by (simp add: searchArticlesTool_def Let_def)

lemma getArticlePreviewTool_text_only:
  "structuredContent (getArticlePreviewTool u fmt None st t) = None
   \<and> meta (getArticlePreviewTool u fmt None st t) = None
   \<and> length (content (getArticlePreviewTool u fmt None st t)) = 1"
  by (simp add: getArticlePreviewTool_def Let_def split: list.splits)

text \<open>
  C5. No error of widget resolution leaves widget initialization. \<open>buildWidgetHtml\<close>
  catches every failure of its resolution steps (a missing asset directory and missing
  asset files among them) and then returns the fallback document when that exists and can
  be read, and the placeholder \<open><div>Widget unavailable</div>\<close> when it does not exist;
  it raises only when the fallback document exists and cannot be read. The two widget
  initializers never raise and return a null descriptor exactly when \<open>buildWidgetHtml\<close>
  raised. A tool call with a null widget descriptor returns a text-only response: one text
  item, no structured content and no metadata.
\<close>

theorem widget_failure_degrades:
  "(\<exists>d. initializeArticleListWidget fs dir = Inr d)
   \<and> (\<exists>d. initializeArticlePreviewWidget fs dir = Inr d)
   \<and> (initializeArticleListWidget fs dir = Inr None
        \<longleftrightarrow> isl (buildWidgetHtml fs ''article-list'' ''article-list-root'' dir))
   \<and> (initializeArticlePreviewWidget fs dir = Inr None
        \<longleftrightarrow> isl (buildWidgetHtml fs ''article-preview'' ''article-preview-root'' dir))
   \<and> (isl (buildWidgetHtml fs name rootId dir)
        \<longleftrightarrow> isl (buildWidgetHtmlTry fs name rootId dir)
            \<and> existsSync fs (pathJoin fs dir ''fallback-widget.html'')
            \<and> readFileSync fs (pathJoin fs dir ''fallback-widget.html'') = None)
   \<and> (isl (buildWidgetHtmlTry fs name rootId dir)
        \<and> \<not> existsSync fs (pathJoin fs dir ''fallback-widget.html'')
        \<longrightarrow> buildWidgetHtml fs name rootId dir = Inr ''<div>Widget unavailable</div>'')
   \<and> (isl (buildWidgetHtmlTry fs name rootId dir)
        \<and> existsSync fs (pathJoin fs dir ''fallback-widget.html'')
        \<and> readFileSync fs (pathJoin fs dir ''fallback-widget.html'') = Some doc
        \<longrightarrow> buildWidgetHtml fs name rootId dir = Inr doc)
   \<and> (\<not> existsSync fs (pathJoin fs (distDir fs) (name @ ''.html'')) \<and> \<not> existsSync fs dir
        \<longrightarrow> buildWidgetHtmlTry fs name rootId dir = Inl (AssetsDirMissing dir))
   \<and> structuredContent (searchArticlesTool u fmt None st q limit) = None
   \<and> meta (searchArticlesTool u fmt None st q limit) = None
   \<and> length (content (searchArticlesTool u fmt None st q limit)) = 1
   \<and> structuredContent (getArticlePreviewTool u fmt None st q) = None
   \<and> meta (getArticlePreviewTool u fmt None st q) = None
   \<and> length (content (getArticlePreviewTool u fmt None st q)) = 1"
proof -
  have list: "(\<exists>d. initializeArticleListWidget fs dir = Inr d)
      \<and> (initializeArticleListWidget fs dir = Inr None
           \<longleftrightarrow> isl (buildWidgetHtml fs ''article-list'' ''article-list-root'' dir))"
    by (cases "buildWidgetHtml fs ''article-list'' ''article-list-root'' dir")
       (simp_all add: initializeArticleListWidget_total)
  have preview: "(\<exists>d. initializeArticlePreviewWidget fs dir = Inr d)
      \<and> (initializeArticlePreviewWidget fs dir = Inr None
           \<longleftrightarrow> isl (buildWidgetHtml fs ''article-preview'' ''article-preview-root'' dir))"
    by (cases "buildWidgetHtml fs ''article-preview'' ''article-preview-root'' dir")
       (simp_all add: initializeArticlePreviewWidget_total)
  have placeholder: "isl (buildWidgetHtmlTry fs name rootId dir)
        \<and> \<not> existsSync fs (pathJoin fs dir ''fallback-widget.html'')
        \<longrightarrow> buildWidgetHtml fs name rootId dir = Inr ''<div>Widget unavailable</div>''"
    by (cases "buildWidgetHtmlTry fs name rootId dir") (simp_all add: buildWidgetHtml_caught)
  have fallback: "isl (buildWidgetHtmlTry fs name rootId dir)
        \<and> existsSync fs (pathJoin fs dir ''fallback-widget.html'')
        \<and> readFileSync fs (pathJoin fs dir ''fallback-widget.html'') = Some doc
        \<longrightarrow> buildWidgetHtml fs name rootId dir = Inr doc"
    by (cases "buildWidgetHtmlTry fs name rootId dir") (simp_all add: buildWidgetHtml_caught)
  show ?thesis
    using list preview placeholder fallback buildWidgetHtml_raises [of fs name rootId dir]
      buildWidgetHtmlTry_no_directory [of fs name dir rootId]
      searchArticlesTool_text_only [of u fmt st q limit]
      getArticlePreviewTool_text_only [of u fmt st q]
    by blast
qed

theorem widget_failure_degrades_witness:
  "\<not> existsSync emptyFs (pathJoin emptyFs (distDir emptyFs) (''article-list'' @ ''.html''))
   \<and> \<not> existsSync emptyFs ''assets''
   \<and> \<not> existsSync emptyFs (pathJoin emptyFs ''assets'' ''fallback-widget.html'')
   \<and> buildWidgetHtmlTry emptyFs ''article-list'' ''article-list-root'' ''assets''
       = Inl (AssetsDirMissing ''assets'')
   \<and> buildWidgetHtml emptyFs ''article-list'' ''article-list-root'' ''assets''
       = Inr ''<div>Widget unavailable</div>''
   \<and> isl (buildWidgetHtmlTry brokenFallbackFs ''article-list'' ''article-list-root'' ''assets'')
   \<and> isl (buildWidgetHtml brokenFallbackFs ''article-list'' ''article-list-root'' ''assets'')
   \<and> initializeArticleListWidget brokenFallbackFs ''assets'' = Inr None
   \<and> structuredContent (searchArticlesTool asciiOnly plainFormatters None exampleIndex ''x'' None) = None"
proof -
  have e: "\<not> existsSync emptyFs (pathJoin emptyFs (distDir emptyFs) (''article-list'' @ ''.html''))"
    "\<not> existsSync emptyFs ''assets''"
    "\<not> existsSync emptyFs (pathJoin emptyFs ''assets'' ''fallback-widget.html'')"
    by (simp_all add: emptyFs_def)
  have b: "existsSync brokenFallbackFs (pathJoin brokenFallbackFs ''assets'' ''fallback-widget.html'')"
    "readFileSync brokenFallbackFs (pathJoin brokenFallbackFs ''assets'' ''fallback-widget.html'')
       = None"
    by (simp_all add: brokenFallbackFs_def)
  have "buildWidgetHtmlTry brokenFallbackFs ''article-list'' ''article-list-root'' ''assets''
       = Inl (AssetMissing ''.js'' ''article-list'')"
    by (simp add: buildWidgetHtmlTry_def resolveWidgetAsset_def brokenFallbackFs_def Let_def)
  then have bt: "isl (buildWidgetHtmlTry brokenFallbackFs ''article-list'' ''article-list-root''
      ''assets'')"
    by simp
  note empty = widget_failure_degrades [of emptyFs "''assets''" "''article-list''"
      "''article-list-root''" "[]" asciiOnly plainFormatters exampleIndex "''x''" None]
  note broken = widget_failure_degrades [of brokenFallbackFs "''assets''" "''article-list''"
      "''article-list-root''" "[]" asciiOnly plainFormatters exampleIndex "''x''" None]
  have t: "buildWidgetHtmlTry emptyFs ''article-list'' ''article-list-root'' ''assets''
       = Inl (AssetsDirMissing ''assets'')"
    using empty e by blast
  then have p: "buildWidgetHtml emptyFs ''article-list'' ''article-list-root'' ''assets''
       = Inr ''<div>Widget unavailable</div>''"
    using empty e by (metis isl_def)
  have r: "isl (buildWidgetHtml brokenFallbackFs ''article-list'' ''article-list-root'' ''assets'')"
    using broken b bt by blast
  then have n: "initializeArticleListWidget brokenFallbackFs ''assets'' = Inr None"
    using broken by blast
  show ?thesis
    using e t p bt r n empty by blast
qed

text \<open>
  With nothing built and a directory at the fallback path, the asset resolution fails, the
  \<open>catch\<close> block finds that the fallback path exists, its read fails, and
  \<open>buildWidgetHtml\<close> raises instead of returning a document.
\<close>

theorem unreadable_fallback_counterexample:
  "buildWidgetHtml brokenFallbackFs ''article-list'' ''article-list-root'' ''assets''
     = Inl (FsFailure ''assets/fallback-widget.html'')"
  by (simp add: buildWidgetHtml_def buildWidgetHtmlTry_def resolveWidgetAsset_def
        brokenFallbackFs_def Let_def)

section \<open>Cross-origin policy\<close>

lemma allowList_nonempty_entries: "\<forall>origin\<in>set (allowList u env). origin \<noteq> []"
  by (auto simp: allowList_def DEFAULT_ALLOWED_ORIGINS_def split: option.splits)

lemma resolveAllowedOrigin_development:
  assumes "isDevelopment env"
  shows "resolveAllowedOrigin u env requestOrigin = orElse requestOrigin ''*''"
  using assms by (simp add: resolveAllowedOrigin_def)

lemma resolveAllowedOrigin_production:
  assumes "\<not> isDevelopment env"
  shows "resolveAllowedOrigin u env requestOrigin
           = (if isAllowed requestOrigin (allowList u env) then orElse requestOrigin []
              else case allowList u env of [] \<Rightarrow> hd DEFAULT_ALLOWED_ORIGINS | origin # _ \<Rightarrow> origin)"
proof (cases "ALLOWED_ORIGIN env")
  case None
  then show ?thesis
    using assms
    by (simp add: resolveAllowedOrigin_def allowList_def DEFAULT_ALLOWED_ORIGINS_def)
next
  case (Some z)
  show ?thesis
  proof (cases "trim u z = []")
    case True
    with Some show ?thesis
      using assms
      by (simp add: resolveAllowedOrigin_def allowList_def DEFAULT_ALLOWED_ORIGINS_def)
  next
    case False
    let ?l = "filter (\<lambda>origin. origin \<noteq> []) (map (trim u) (splitComma (trim u z)))"
    have l: "allowList u env = ?l"
      using Some False by (simp add: allowList_def)
    have first: "orElse (case ?l of [] \<Rightarrow> None | origin # _ \<Rightarrow> Some origin)
                   (hd DEFAULT_ALLOWED_ORIGINS)
            = (case ?l of [] \<Rightarrow> hd DEFAULT_ALLOWED_ORIGINS | origin # _ \<Rightarrow> origin)"
      using allowList_nonempty_entries [of u env] unfolding l
      by (cases ?l) (auto simp: orElse_def)
    have "resolveAllowedOrigin u env requestOrigin
            = (if isAllowed requestOrigin ?l then orElse requestOrigin []
               else orElse (case ?l of [] \<Rightarrow> None | origin # _ \<Rightarrow> Some origin)
                      (hd DEFAULT_ALLOWED_ORIGINS))"
      using assms Some False
      by (simp add: resolveAllowedOrigin_def orElse_def Let_def)
    then show ?thesis
      unfolding first l .
  qed
qed

lemma getCorsHeaders_origin:
  assumes "''Access-Control-Allow-Origin'' \<notin> dom extra"
  shows "getCorsHeaders u env requestOrigin extra ''Access-Control-Allow-Origin''
           = Some (resolveAllowedOrigin u env requestOrigin)"
  using assms
  by (auto simp: getCorsHeaders_def Let_def map_add_def split: option.splits)

lemma getCorsHeaders_credentials:
  assumes "''Access-Control-Allow-Credentials'' \<notin> dom extra"
  shows "getCorsHeaders u env requestOrigin extra ''Access-Control-Allow-Credentials''
           = (if resolveAllowedOrigin u env requestOrigin = ''*'' then None else Some ''true'')"
  using assms
  by (auto simp: getCorsHeaders_def Let_def map_add_def split: option.splits)

text \<open>
  C8. In the headers of \<open>getCorsHeaders\<close> (for additional headers that set neither of the
  two), \<open>Access-Control-Allow-Credentials\<close> is \<open>true\<close> exactly when the
  \<open>Access-Control-Allow-Origin\<close> value is not the wildcard, and is absent otherwise. In
  non-production mode every non-empty request origin is echoed back and a missing origin
  gives the wildcard. In production the value is the request origin when the allow-list
  has it, and the first origin of the allow-list otherwise: a specific origin that is not
  the request's, still sent with credentials.
\<close>

theorem cors_credentials:
  assumes "''Access-Control-Allow-Origin'' \<notin> dom extra"
    and "''Access-Control-Allow-Credentials'' \<notin> dom extra"
  shows "getCorsHeaders u env requestOrigin extra ''Access-Control-Allow-Origin''
           = Some (resolveAllowedOrigin u env requestOrigin)
    \<and> (getCorsHeaders u env requestOrigin extra ''Access-Control-Allow-Credentials'' = Some ''true''
         \<longleftrightarrow> getCorsHeaders u env requestOrigin extra ''Access-Control-Allow-Origin'' \<noteq> Some ''*'')
    \<and> (getCorsHeaders u env requestOrigin extra ''Access-Control-Allow-Credentials'' = None
         \<longleftrightarrow> getCorsHeaders u env requestOrigin extra ''Access-Control-Allow-Origin'' = Some ''*'')
    \<and> (isDevelopment env \<and> requestOrigin = Some origin \<and> origin \<noteq> []
         \<longrightarrow> resolveAllowedOrigin u env requestOrigin = origin)
    \<and> (isDevelopment env \<and> (requestOrigin = None \<or> requestOrigin = Some [])
         \<longrightarrow> resolveAllowedOrigin u env requestOrigin = ''*'')
    \<and> (\<not> isDevelopment env \<and> requestOrigin = Some origin \<and> origin \<noteq> []
          \<and> origin \<in> set (allowList u env)
         \<longrightarrow> resolveAllowedOrigin u env requestOrigin = origin)
    \<and> (\<not> isDevelopment env
          \<and> \<not> (\<exists>origin. requestOrigin = Some origin \<and> origin \<noteq> [] \<and> origin \<in> set (allowList u env))
         \<longrightarrow> resolveAllowedOrigin u env requestOrigin
             = (case allowList u env of [] \<Rightarrow> hd DEFAULT_ALLOWED_ORIGINS | first # _ \<Rightarrow> first))"
proof -
  have dev: "isDevelopment env \<and> requestOrigin = Some origin \<and> origin \<noteq> []
         \<longrightarrow> resolveAllowedOrigin u env requestOrigin = origin"
    "isDevelopment env \<and> (requestOrigin = None \<or> requestOrigin = Some [])
         \<longrightarrow> resolveAllowedOrigin u env requestOrigin = ''*''"
    by (auto simp: resolveAllowedOrigin_development orElse_def)
  have prod: "\<not> isDevelopment env \<and> requestOrigin = Some origin \<and> origin \<noteq> []
          \<and> origin \<in> set (allowList u env)
         \<longrightarrow> resolveAllowedOrigin u env requestOrigin = origin"
    "\<not> isDevelopment env
          \<and> \<not> (\<exists>origin. requestOrigin = Some origin \<and> origin \<noteq> [] \<and> origin \<in> set (allowList u env))
         \<longrightarrow> resolveAllowedOrigin u env requestOrigin
             = (case allowList u env of [] \<Rightarrow> hd DEFAULT_ALLOWED_ORIGINS | first # _ \<Rightarrow> first)"
    by (auto simp: resolveAllowedOrigin_production orElse_def isAllowed_def split: option.splits)
  show ?thesis
    using dev prod
    by (simp add: getCorsHeaders_origin [OF assms(1)] getCorsHeaders_credentials [OF assms(2)])
qed

theorem cors_credentials_witness:
  "''Access-Control-Allow-Origin'' \<notin> dom (Map.empty :: string \<rightharpoonup> string)
   \<and> ''Access-Control-Allow-Credentials'' \<notin> dom (Map.empty :: string \<rightharpoonup> string)
   \<and> isDevelopment developmentEnv
   \<and> getCorsHeaders asciiOnly developmentEnv (Some ''http://localhost:3000'') Map.empty
        ''Access-Control-Allow-Origin'' = Some ''http://localhost:3000''
   \<and> getCorsHeaders asciiOnly developmentEnv (Some ''http://localhost:3000'') Map.empty
        ''Access-Control-Allow-Credentials'' = Some ''true''
   \<and> getCorsHeaders asciiOnly developmentEnv None Map.empty ''Access-Control-Allow-Origin'' = Some ''*''
   \<and> getCorsHeaders asciiOnly developmentEnv None Map.empty ''Access-Control-Allow-Credentials'' = None"
proof -
  have d: "''Access-Control-Allow-Origin'' \<notin> dom (Map.empty :: string \<rightharpoonup> string)"
    "''Access-Control-Allow-Credentials'' \<notin> dom (Map.empty :: string \<rightharpoonup> string)"
    by simp_all
  have dev: "isDevelopment developmentEnv"
    by (simp add: developmentEnv_def)
  show ?thesis
    using d dev
      cors_credentials [OF d, of asciiOnly developmentEnv "Some ''http://localhost:3000''"
        "''http://localhost:3000''"]
      cors_credentials [OF d, of asciiOnly developmentEnv None "[]"]
    by simp
qed

text \<open>
  In production, with the default allow-list, a request from an origin that is not allowed
  is answered with the first allowed origin and with credentials: the origin sent is
  specific, but it is not the request's origin echoed back.
\<close>

theorem credentials_without_echo_counterexample:
  "getCorsHeaders asciiOnly productionEnv (Some ''https://evil.example'') Map.empty
     ''Access-Control-Allow-Credentials'' = Some ''true''
   \<and> getCorsHeaders asciiOnly productionEnv (Some ''https://evil.example'') Map.empty
       ''Access-Control-Allow-Origin'' = Some ''https://chatgpt.com''
   \<and> ''https://chatgpt.com'' \<noteq> ''https://evil.example''"
  by (simp add: getCorsHeaders_def resolveAllowedOrigin_def productionEnv_def isAllowed_def
        DEFAULT_ALLOWED_ORIGINS_def Let_def)

end
